theory Spec2Isabelle
  imports Main
begin

section \<open>The webpack runtime bootstrap of prettywebsite.js\<close>

text \<open>
  The file is one closure over five tables: \<open>modules\<close> (the factories),
  \<open>installedModules\<close> (the module cache), \<open>installedChunks\<close> and \<open>chunkStatus\<close>
  (two tables indexed by chunk id) and \<open>chunkQueue\<close> (the deferred entries). Its functions
  are \<open>__webpack_require__\<close>, \<open>loadChunk\<close>, \<open>checkDeferredModules\<close>, the
  \<open>onerror\<close>/\<open>onload\<close> handler and the timer callback that \<open>loadChunk\<close> installs, and the
  replacement of \<open>jsonpArray.push\<close>. Each becomes a function on an explicit state record.

  Ids index JavaScript objects, so an id is identified with the property key that JavaScript
  derives from it: the chunk \<open>77\<close> is the key \<open>''77''\<close>, and the absent id \<open>undefined\<close> is the
  key \<open>''undefined''\<close>.

  A table is the finite map of its own properties, and a read of a key that is not an own
  property goes on to the prototype: \<open>installedModules\<close> and \<open>chunkStatus\<close> are plain
  objects and inherit from \<open>Object.prototype\<close>, \<open>modules\<close> is an Array and inherits from
  \<open>Array.prototype\<close> first. The two prototypes are part of the state; the runtime reads
  them, and replaces that of the Array in one place (line 110). The reads of \<open>__webpack_require__\<close> (lines 13 and 21) and of \<open>loadChunk\<close>
  (lines 30 and 32) follow this chain. A write \<open>table[key] = value\<close> is the write of an own
  property for every key but two: \<open>__proto__\<close>, which is the inherited setter of the
  prototype, and \<open>length\<close> on the Array. The reads before the writes of lines 15, 34 and 58
  keep \<open>__proto__\<close> away from them; the writes of the delivery (lines 105 and 110) meet
  both.
\<close>

subsection \<open>Values, objects and module factories\<close>

text \<open>
  \<open>Ref a\<close> is the object at address \<open>a\<close> of the heap, \<open>ModuleRec i\<close> the module record of
  the id \<open>i\<close>, and \<open>RequireFn\<close> the function \<open>__webpack_require__\<close>.
\<close>

datatype val = Undefined | Num int | Str string | Ref nat | ModuleRec string | RequireFn

type_synonym obj = "string \<rightharpoonup> val"

text \<open>
  A factory is opaque JavaScript for the runtime, which gives it three things: the module
  record, its exports object and \<open>__webpack_require__\<close>. The model takes a factory body to be a
  straight-line script over exactly these: write a property of the \<open>exports\<close> argument
  (a given value, or one of the three arguments), assign \<open>module.exports\<close>, require another
  module (the result is dropped), throw a value, or raise an exception of the engine.
\<close>

datatype exn = TypeError | RangeError | Thrown val

datatype arg = ArgModule | ArgExports | ArgRequire

datatype stmt =
    SetExport string val
  | SetExportArg string arg
  | SetModuleExports val
  | Require string
  | Throw val
  | Raise exn

type_synonym factory = "stmt list"

text \<open>
  The module record \<open>{i, l, exports}\<close> of the source; the fields carry a prefix because
  \<open>i\<close> and \<open>l\<close> would otherwise be taken by every variable of that name.
\<close>

record module_rec =
  mod_i :: string
  mod_l :: bool
  mod_exports :: val

subsection \<open>Chunk slots, promises, scripts\<close>

text \<open>
  A slot of \<open>installedChunks\<close> or \<open>chunkStatus\<close> holds the number \<open>0\<close>, \<open>undefined\<close>, or the
  array \<open>[resolve, reject, promise]\<close> of one promise, which is named by its index in the
  promise store.
\<close>

datatype slot = Zero | Undef | Waiter nat

text \<open>
  The \<open>Error\<close> object that \<open>loadChunk\<close> creates once per script and that the handler fills
  in. \<open>type\<close> and \<open>request\<close> are \<open>undefined\<close> (\<open>None\<close>) or a string.
\<close>

record chunk_error =
  err_message :: string
  err_name :: string
  err_type :: "string option"
  err_request :: "string option"

text \<open>
  A promise is pending, fulfilled (the runtime only ever calls \<open>resolve()\<close> without a value),
  or rejected with the error object owned by script \<open>k\<close>. The rejection holds the reference,
  not a copy: the fields are read from the script's \<open>error\<close>.
\<close>

datatype pstate = PPending | Fulfilled | Rejected nat

text \<open>
  One record for each \<open>script\<close> element appended to \<open>document.head\<close>, together with what
  its handler closure captures: \<open>owner\<close> is the closure's \<open>chunkId\<close>, \<open>error\<close> its
  \<open>error\<close> object, and \<open>timer\<close> tells whether its \<open>setTimeout\<close> timer is still scheduled.
\<close>

record script =
  charset :: string
  timeout :: nat
  src :: string
  owner :: string
  error :: chunk_error
  timer :: bool

record event =
  ev_type :: string
  ev_target :: "string option"

text \<open>An element of the array \<open>promises\<close> of \<open>loadChunk\<close>: the promise \<open>p\<close> itself, the
  whole array \<open>[resolve, reject, promise]\<close> of \<open>p\<close>, or the inherited property of a name;
  the last two are not promises.\<close>

datatype elem = Prom nat | Tuple nat | Inherited string

datatype future = PromiseAll "elem list"

type_synonym chunkData = "string list \<times> (string \<times> factory) list \<times> string option"

subsection \<open>The state of the closure\<close>

text \<open>
  \<open>req_s\<close> is the property \<open>__webpack_require__.s\<close>. \<open>object_prototype\<close> lists the names
  of the properties of \<open>Object.prototype\<close>; their values are functions or objects, hence
  truthy, and none has a property \<open>exports\<close>. \<open>array_prototype\<close> gives what the Array
  \<open>modules\<close> inherits before \<open>Object.prototype\<close> and line 21 can call, at first the
  methods of \<open>Array.prototype\<close>, each as what it does when line 21 calls it in place of a
  factory. The last two fields are ghost state: \<open>calls\<close> logs every call that line 21 makes, \<open>fired\<close> every
  deferred entry that \<open>checkDeferredModules\<close> hands to \<open>__webpack_require__\<close>.
\<close>

record state =
  modules :: "string \<rightharpoonup> factory"
  installedModules :: "string \<rightharpoonup> module_rec"
  installedChunks :: "string \<rightharpoonup> slot"
  chunkStatus :: "string \<rightharpoonup> slot"
  chunkQueue :: "string list list"
  jsonpArray :: "chunkData list"
  req_s :: "string option"
  heap :: "obj list"
  promises :: "pstate list"
  scripts :: "script list"
  object_prototype :: "string list"
  array_prototype :: "(string \<times> factory) list"
  calls :: "string list"
  fired :: "string list list"

text \<open>
  The prototypes of the ECMAScript standard (2023). A method of \<open>Array.prototype\<close> is
  called by line 21 with a fresh empty object as \<open>this\<close> and with the arguments
  \<open>(module, module.exports, __webpack_require__)\<close>, none of which is callable as the callback
  that the iterating methods demand. The names \<open>constructor\<close>, \<open>toString\<close> and
  \<open>toLocaleString\<close> of \<open>Array.prototype\<close> are left out: line 13 finds them on
  \<open>Object.prototype\<close> before line 21 is reached.
\<close>

definition es_object_prototype :: "string list" where
  "es_object_prototype =
     [''constructor'', ''__defineGetter__'', ''__defineSetter__'', ''hasOwnProperty'',
      ''__lookupGetter__'', ''__lookupSetter__'', ''isPrototypeOf'', ''propertyIsEnumerable'',
      ''toString'', ''valueOf'', ''__proto__'', ''toLocaleString'']"

definition es_array_prototype :: "(string \<times> factory) list" where
  "es_array_prototype =
     map (\<lambda>k. (k, []))
       [''at'', ''concat'', ''copyWithin'', ''entries'', ''fill'', ''flat'', ''includes'',
        ''indexOf'', ''join'', ''keys'', ''lastIndexOf'', ''reverse'', ''slice'',
        ''toReversed'', ''toSpliced'', ''values'']
     @ map (\<lambda>k. (k, [Raise TypeError]))
       [''every'', ''filter'', ''find'', ''findIndex'', ''findLast'', ''findLastIndex'',
        ''flatMap'', ''forEach'', ''map'', ''reduce'', ''reduceRight'', ''some'', ''sort'',
        ''toSorted'']
     @ [(''with'', [Raise RangeError]),
        (''pop'', [SetExport ''length'' (Num 0)]),
        (''shift'', [SetExport ''length'' (Num 0)]),
        (''push'', [SetExportArg ''0'' ArgModule, SetExportArg ''1'' ArgExports,
           SetExportArg ''2'' ArgRequire, SetExport ''length'' (Num 3)]),
        (''unshift'', [SetExportArg ''0'' ArgModule, SetExportArg ''1'' ArgExports,
           SetExportArg ''2'' ArgRequire, SetExport ''length'' (Num 3)]),
        (''splice'', [SetExportArg ''0'' ArgRequire, SetExport ''length'' (Num 1)])]"

definition init :: state where
  "init = \<lparr> modules = Map.empty, installedModules = Map.empty,
     installedChunks = [''77'' \<mapsto> Zero], chunkStatus = [''77'' \<mapsto> Zero],
     chunkQueue = [], jsonpArray = [], req_s = None, heap = [], promises = [],
     scripts = [], object_prototype = es_object_prototype,
     array_prototype = es_array_prototype, calls = [], fired = [] \<rparr>"

definition webpack_p :: string where
  "webpack_p = ''https://cdn2.edulastic.com/JS/dist/''"

definition key_of :: "string option \<Rightarrow> string" where
  "key_of v = (case v of None \<Rightarrow> ''undefined'' | Some k \<Rightarrow> k)"

subsection \<open>\<open>__webpack_require__\<close>\<close>

type_synonym 'a result = "((exn + 'a) \<times> state) option"

definition upd_module :: "string \<Rightarrow> (module_rec \<Rightarrow> module_rec) \<Rightarrow> state \<Rightarrow> state" where
  "upd_module moduleId f s =
     (case installedModules s moduleId of
        None \<Rightarrow> s
      | Some m \<Rightarrow> s\<lparr>installedModules := (installedModules s)(moduleId \<mapsto> f m)\<rparr>)"

definition set_prop :: "nat \<Rightarrow> string \<Rightarrow> val \<Rightarrow> state \<Rightarrow> state" where
  "set_prop a k v s = s\<lparr>heap := (heap s)[a := ((heap s) ! a)(k \<mapsto> v)]\<rparr>"

definition module_exports :: "state \<Rightarrow> string \<Rightarrow> val" where
  "module_exports s moduleId =
     (case installedModules s moduleId of None \<Rightarrow> Undefined | Some m \<Rightarrow> mod_exports m)"

text \<open>
  The call \<open>modules[moduleId].call(module.exports, module, module.exports, __webpack_require__)\<close>:
  \<open>run req moduleId a s body\<close> runs the body of the factory of \<open>moduleId\<close>, whose
  \<open>exports\<close> argument is the object at address \<open>a\<close> and whose third argument is \<open>req\<close>.
  A throw ends the run with the state reached so far.
\<close>

definition arg_val :: "string \<Rightarrow> nat \<Rightarrow> arg \<Rightarrow> val" where
  "arg_val moduleId a x =
     (case x of ArgModule \<Rightarrow> ModuleRec moduleId | ArgExports \<Rightarrow> Ref a | ArgRequire \<Rightarrow> RequireFn)"

fun run :: "(state \<Rightarrow> string \<Rightarrow> val result) \<Rightarrow> string \<Rightarrow> nat \<Rightarrow> state \<Rightarrow> factory \<Rightarrow> unit result" where
  "run req moduleId a s [] = Some (Inr (), s)"
| "run req moduleId a s (SetExport k v # rest) = run req moduleId a (set_prop a k v s) rest"
| "run req moduleId a s (SetExportArg k x # rest) =
     run req moduleId a (set_prop a k (arg_val moduleId a x) s) rest"
| "run req moduleId a s (SetModuleExports v # rest) =
     run req moduleId a (upd_module moduleId (\<lambda>m. m\<lparr>mod_exports := v\<rparr>) s) rest"
| "run req moduleId a s (Require r # rest) =
     (case req s r of
        None \<Rightarrow> None
      | Some (Inl e, s') \<Rightarrow> Some (Inl e, s')
      | Some (Inr v, s') \<Rightarrow> run req moduleId a s' rest)"
| "run req moduleId a s (Throw v # rest) = Some (Inl (Thrown v), s)"
| "run req moduleId a s (Raise e # rest) = Some (Inl e, s)"

text \<open>
  \<open>install\<close> is the assignment \<open>var module = installedModules[moduleId] = {i, l: false,
  exports: {}}\<close>; the fresh exports object is allocated at the end of the heap.
\<close>

definition install :: "string \<Rightarrow> state \<Rightarrow> state" where
  "install moduleId s =
     s\<lparr>installedModules := (installedModules s)(moduleId \<mapsto>
          \<lparr>mod_i = moduleId, mod_l = False, mod_exports = Ref (length (heap s))\<rparr>),
       heap := heap s @ [Map.empty]\<rparr>"

text \<open>
  \<open>modules[moduleId]\<close> of line 21: the registered factory, an own property of the Array,
  or else the method of that name that the Array inherits.
\<close>

definition callee :: "state \<Rightarrow> string \<rightharpoonup> factory" where
  "callee s = map_of (array_prototype s) ++ modules s"

text \<open>
  The fuel bounds the nesting depth of calls; \<open>None\<close> is "out of fuel". Line 13 reads
  \<open>installedModules[moduleId]\<close>: a cached record gives its \<open>exports\<close>; without a record, a
  name of \<open>Object.prototype\<close> gives the inherited value, which is truthy and has no
  \<open>exports\<close>, so the call returns \<open>undefined\<close>. Calling \<open>modules[moduleId].call\<close> when
  \<open>modules[moduleId]\<close> is \<open>undefined\<close> raises a \<open>TypeError\<close>, after the record was
  installed.
\<close>

primrec require :: "nat \<Rightarrow> state \<Rightarrow> string \<Rightarrow> val result" where
  "require 0 s moduleId = None"
| "require (Suc n) s moduleId =
     (case installedModules s moduleId of
        Some m \<Rightarrow> Some (Inr (mod_exports m), s)
      | None \<Rightarrow>
         if moduleId \<in> set (object_prototype s) then Some (Inr Undefined, s)
         else
         (let s1 = install moduleId s in
          case callee s1 moduleId of
            None \<Rightarrow> Some (Inl TypeError, s1)
          | Some f \<Rightarrow>
             (case run (require n) moduleId (length (heap s)) (s1\<lparr>calls := calls s1 @ [moduleId]\<rparr>) f of
                None \<Rightarrow> None
              | Some (Inl e, s2) \<Rightarrow> Some (Inl e, s2)
              | Some (Inr u, s2) \<Rightarrow>
                 (let s3 = upd_module moduleId (\<lambda>m. m\<lparr>mod_l := True\<rparr>) s2
                  in Some (Inr (module_exports s3 moduleId), s3)))))"

subsection \<open>\<open>checkDeferredModules\<close> and the loop that repeats it\<close>

text \<open>
  A deferred entry is the array \<open>[entry module, required chunk, ...]\<close>. The inner loop runs
  over the indices from \<open>1\<close> and never leaves early; \<open>installedChunks[depId] !== 0\<close> holds
  unless the slot is the number \<open>0\<close>.
\<close>

definition fulfilled :: "state \<Rightarrow> string list \<Rightarrow> bool" where
  "fulfilled s deferredModule =
     foldl (\<lambda>f depId. if installedChunks s depId \<noteq> Some Zero then False else f)
       True (drop 1 deferredModule)"

definition entry_of :: "string list \<Rightarrow> string option" where
  "entry_of deferredModule = (case deferredModule of [] \<Rightarrow> None | x # _ \<Rightarrow> Some x)"

definition splice1 :: "nat \<Rightarrow> 'a list \<Rightarrow> 'a list" where
  "splice1 j xs = take j xs @ drop (Suc j) xs"

text \<open>
  The outer \<open>for\<close> loop at index \<open>j\<close> with the current \<open>result\<close>. After
  \<open>chunkQueue.splice(i--, 1)\<close> the increment of the loop restores the index, so the scan
  goes on at the same \<open>j\<close>. An exception of the entry module leaves the loop.
\<close>

primrec scan :: "nat \<Rightarrow> nat \<Rightarrow> val \<Rightarrow> state \<Rightarrow> val result" where
  "scan 0 j result s = None"
| "scan (Suc n) j result s =
     (if j < length (chunkQueue s) then
        (let deferredModule = chunkQueue s ! j in
         if fulfilled s deferredModule then
           (let s1 = s\<lparr>chunkQueue := splice1 j (chunkQueue s),
                       req_s := entry_of deferredModule,
                       fired := fired s @ [deferredModule]\<rparr>
            in case require n s1 (key_of (entry_of deferredModule)) of
                 None \<Rightarrow> None
               | Some (Inl e, s2) \<Rightarrow> Some (Inl e, s2)
               | Some (Inr v, s2) \<Rightarrow> scan n j v s2)
         else scan n (Suc j) result s)
      else Some (Inr result, s))"

definition checkDeferredModules :: "nat \<Rightarrow> state \<Rightarrow> val result" where
  "checkDeferredModules n s = scan n 0 Undefined s"

text \<open>The loop \<open>while (chunkQueue.length) { checkDeferredModules(); }\<close> of the delivery.\<close>

primrec while_chunkQueue :: "nat \<Rightarrow> state \<Rightarrow> unit result" where
  "while_chunkQueue 0 s = None"
| "while_chunkQueue (Suc n) s =
     (if length (chunkQueue s) \<noteq> 0 then
        (case checkDeferredModules n s of
           None \<Rightarrow> None
         | Some (Inl e, s') \<Rightarrow> Some (Inl e, s')
         | Some (Inr v, s') \<Rightarrow> while_chunkQueue n s')
      else Some (Inr (), s))"

subsection \<open>Promises\<close>

text \<open>Settling a promise that is no longer pending does nothing, as in JavaScript.\<close>

definition settle :: "nat \<Rightarrow> pstate \<Rightarrow> state \<Rightarrow> state" where
  "settle p st s =
     (if p < length (promises s) \<and> promises s ! p = PPending
      then s\<lparr>promises := (promises s)[p := st]\<rparr> else s)"

definition elem_state :: "state \<Rightarrow> elem \<Rightarrow> pstate" where
  "elem_state s e =
     (case e of
        Tuple p \<Rightarrow> Fulfilled
      | Inherited k \<Rightarrow> Fulfilled
      | Prom p \<Rightarrow> (if p < length (promises s) then promises s ! p else PPending))"

text \<open>
  The settlement of \<open>Promise.all(promises)\<close> as a function of the promise store: a value
  that is not a promise counts as fulfilled, one rejected promise rejects the whole.
  \<open>loadChunk\<close> builds arrays of at most one element, for which the order in which
  several promises settle plays no role.
\<close>

fun promise_all :: "state \<Rightarrow> elem list \<Rightarrow> pstate" where
  "promise_all s [] = Fulfilled"
| "promise_all s (e # es) =
     (case elem_state s e of
        Rejected k \<Rightarrow> Rejected k
      | PPending \<Rightarrow> (case promise_all s es of Rejected k \<Rightarrow> Rejected k | _ \<Rightarrow> PPending)
      | Fulfilled \<Rightarrow> promise_all s es)"

fun future_state :: "state \<Rightarrow> future \<Rightarrow> pstate" where
  "future_state s (PromiseAll es) = promise_all s es"

subsection \<open>\<open>loadChunk\<close>, the script handler and the timer\<close>

definition new_Error :: chunk_error where
  "new_Error = \<lparr>err_message = [], err_name = ''Error'', err_type = None, err_request = None\<rparr>"

text \<open>
  An array is truthy, \<open>0\<close> and \<open>undefined\<close> are not: the first branch is the slot holding
  the array, or, without an own slot, the truthy value inherited under a name of
  \<open>Object.prototype\<close>; the second every slot that is not \<open>0\<close>. The fetch is the
  \<open>script\<close> appended to \<open>document.head\<close>.
\<close>

definition loadChunk :: "state \<Rightarrow> string \<Rightarrow> future \<times> state" where
  "loadChunk s chunkId =
     (case chunkStatus s chunkId of
        Some (Waiter p) \<Rightarrow> (PromiseAll [Tuple p], s)
      | Some Zero \<Rightarrow> (PromiseAll [], s)
      | v \<Rightarrow>
         if v = None \<and> chunkId \<in> set (object_prototype s)
         then (PromiseAll [Inherited chunkId], s)
         else
         (let p = length (promises s);
              sc = \<lparr>charset = ''utf-8'', timeout = 120000,
                    src = webpack_p @ chunkId @ ''.chunk.js'',
                    owner = chunkId, error = new_Error, timer = True\<rparr>
          in (PromiseAll [Prom p],
              s\<lparr>promises := promises s @ [PPending],
                chunkStatus := (chunkStatus s)(chunkId \<mapsto> Waiter p),
                scripts := scripts s @ [sc]\<rparr>)))"

definition show_opt :: "string option \<Rightarrow> string" where
  "show_opt v = (case v of None \<Rightarrow> ''undefined'' | Some x \<Rightarrow> x)"

definition event_type :: "event option \<Rightarrow> string option" where
  "event_type ev =
     (case ev of
        None \<Rightarrow> None
      | Some e \<Rightarrow> Some (if ev_type e = ''load'' then ''missing'' else ev_type e))"

definition event_request :: "event option \<Rightarrow> string option" where
  "event_request ev = (case ev of None \<Rightarrow> None | Some e \<Rightarrow> ev_target e)"

text \<open>The line break inside the message is the escape \<open>\n\<close> of the bundle.\<close>

definition chunk_load_error :: "string \<Rightarrow> event option \<Rightarrow> chunk_error" where
  "chunk_load_error chunkId ev =
     \<lparr>err_message = ''Loading chunk '' @ chunkId @ '' failed.'' @ [CHR 0x0A] @ ''(''
          @ show_opt (event_type ev) @ '': '' @ show_opt (event_request ev) @ '')'',
      err_name = ''ChunkLoadError'',
      err_type = event_type ev,
      err_request = event_request ev\<rparr>"

definition clearTimeout :: "nat \<Rightarrow> state \<Rightarrow> state" where
  "clearTimeout k s = s\<lparr>scripts := (scripts s)[k := (scripts s ! k)\<lparr>timer := False\<rparr>]\<rparr>"

definition set_error :: "nat \<Rightarrow> chunk_error \<Rightarrow> state \<Rightarrow> state" where
  "set_error k e s = s\<lparr>scripts := (scripts s)[k := (scripts s ! k)\<lparr>error := e\<rparr>]\<rparr>"

text \<open>
  \<open>script.onerror = script.onload\<close> of the script \<open>k\<close>, called with \<open>event\<close>. A script
  that was never created has no handler.
\<close>

definition script_onevent :: "nat \<Rightarrow> event option \<Rightarrow> state \<Rightarrow> state" where
  "script_onevent k ev s =
     (if k < length (scripts s) then
        (let chunkId = owner (scripts s ! k);
             s1 = clearTimeout k s
         in case chunkStatus s1 chunkId of
              Some Zero \<Rightarrow> s1
            | Some (Waiter p) \<Rightarrow>
                (let s2 = set_error k (chunk_load_error chunkId ev) s1;
                     s3 = settle p (Rejected k) s2
                 in s3\<lparr>chunkStatus := (chunkStatus s3)(chunkId \<mapsto> Undef)\<rparr>)
            | _ \<Rightarrow> s1\<lparr>chunkStatus := (chunkStatus s1)(chunkId \<mapsto> Undef)\<rparr>)
      else s)"

text \<open>
  The callback of \<open>setTimeout\<close>: it runs only if the timer was not cleared, and calls
  \<open>script.onerror({type: 'timeout', target: script})\<close>.
\<close>

definition timer_fires :: "nat \<Rightarrow> state \<Rightarrow> state" where
  "timer_fires k s =
     (if k < length (scripts s) \<and> timer (scripts s ! k) then
        script_onevent k
          (Some \<lparr>ev_type = ''timeout'', ev_target = Some (src (scripts s ! k))\<rparr>) s
      else s)"

subsection \<open>The delivery: \<open>jsonpArray.push\<close>\<close>

text \<open>
  The first loop, for one chunk id: \<open>resolve\<close> is called when the slot is an own property
  holding an array, then \<open>installedChunks[chunkId] = 0\<close> writes the slot. For the key
  \<open>__proto__\<close> that assignment goes to the setter inherited from \<open>Object.prototype\<close>,
  which ignores a number: nothing is written.
\<close>

definition mark_chunk :: "state \<Rightarrow> string \<Rightarrow> state" where
  "mark_chunk s chunkId =
     (let s1 = (case installedChunks s chunkId of
                  Some (Waiter p) \<Rightarrow> settle p Fulfilled s
                | _ \<Rightarrow> s)
      in if chunkId = ''__proto__'' \<and> ''__proto__'' \<in> set (object_prototype s) then s1
         else s1\<lparr>installedChunks := (installedChunks s1)(chunkId \<mapsto> Zero)\<rparr>)"

text \<open>
  The assignment \<open>modules[moduleId] = moreModules[moduleId]\<close> for a key other than
  \<open>length\<close>. For the key \<open>__proto__\<close> it goes to the inherited setter and makes the
  factory, a function, the prototype of the Array: the methods of \<open>Array.prototype\<close> are
  no longer inherited, and what is inherited from the function in their place is nothing
  that line 21 can call (\<open>call\<close>, \<open>apply\<close> and \<open>bind\<close> raise a \<open>TypeError\<close> on the exports
  object, like a missing property).
\<close>

definition add_module :: "state \<Rightarrow> string \<times> factory \<Rightarrow> state" where
  "add_module s kv =
     (if fst kv = ''__proto__'' \<and> ''__proto__'' \<in> set (object_prototype s)
      then s\<lparr>array_prototype := []\<rparr>
      else s\<lparr>modules := (modules s)(fst kv \<mapsto> snd kv)\<rparr>)"

text \<open>
  The second loop, over the own properties of \<open>moreModules\<close> in the order of the
  enumeration. Assigning a function to the \<open>length\<close> of an Array raises a \<open>RangeError\<close>,
  which leaves the delivery.
\<close>

fun merge_modules :: "state \<Rightarrow> (string \<times> factory) list \<Rightarrow> (exn + unit) \<times> state" where
  "merge_modules s [] = (Inr (), s)"
| "merge_modules s (kv # moreModules) =
     (if fst kv = ''length'' then (Inl RangeError, s)
      else merge_modules (add_module s kv) moreModules)"

text \<open>
  \<open>oldJsonpFunction\<close> is the bound original \<open>push\<close>, always present: it appends
  \<open>chunkData\<close> to the array. The last line calls \<open>__webpack_require__(executeModules)\<close>
  whatever \<open>executeModules\<close> is.
\<close>

definition jsonp_push :: "nat \<Rightarrow> state \<Rightarrow> chunkData \<Rightarrow> val result" where
  "jsonp_push n s chunkData =
     (case chunkData of (chunkIds, moreModules, executeModules) \<Rightarrow>
        (case merge_modules (foldl mark_chunk s chunkIds) moreModules of
           (Inl e, s2) \<Rightarrow> Some (Inl e, s2)
         | (Inr u, s2) \<Rightarrow>
            (let s3 = s2\<lparr>jsonpArray := jsonpArray s2 @ [chunkData]\<rparr>
             in case while_chunkQueue n s3 of
                  None \<Rightarrow> None
                | Some (Inl e, s4) \<Rightarrow> Some (Inl e, s4)
                | Some (Inr u, s4) \<Rightarrow> require n s4 (key_of executeModules))))"

text \<open>
  The delivery up to line 114: the exception of the second loop, or else the state in which
  the loop of line 115 starts, with the chunks of the batch marked, its factories merged
  and the batch appended to the array.
\<close>

definition delivered :: "state \<Rightarrow> chunkData \<Rightarrow> (exn + unit) \<times> state" where
  "delivered s chunkData =
     (case chunkData of (chunkIds, moreModules, executeModules) \<Rightarrow>
        (case merge_modules (foldl mark_chunk s chunkIds) moreModules of
           (Inl e, s2) \<Rightarrow> (Inl e, s2)
         | (Inr u, s2) \<Rightarrow> (Inr (), s2\<lparr>jsonpArray := jsonpArray s2 @ [chunkData]\<rparr>)))"

subsection \<open>Relations between the state before and after a call\<close>

text \<open>
  \<open>frame\<close> lists what no module execution touches. \<open>keeps x\<close> says that a module \<open>x\<close>
  already in the cache stays there with its flag \<open>l\<close>, and that its factory is not invoked.
\<close>

definition frame :: "state \<Rightarrow> state \<Rightarrow> bool" where
  "frame s s' =
     (modules s' = modules s \<and> installedChunks s' = installedChunks s
      \<and> chunkStatus s' = chunkStatus s \<and> chunkQueue s' = chunkQueue s
      \<and> jsonpArray s' = jsonpArray s \<and> req_s s' = req_s s
      \<and> promises s' = promises s \<and> scripts s' = scripts s \<and> fired s' = fired s
      \<and> object_prototype s' = object_prototype s \<and> array_prototype s' = array_prototype s)"

definition keeps :: "string \<Rightarrow> state \<Rightarrow> state \<Rightarrow> bool" where
  "keeps x s s' =
     (case installedModules s x of
        None \<Rightarrow> True
      | Some m \<Rightarrow>
          (case installedModules s' x of
             None \<Rightarrow> False
           | Some m' \<Rightarrow> mod_l m' = mod_l m \<and> mod_i m' = mod_i m)
          \<and> count_list (calls s') x = count_list (calls s) x)"

text \<open>The number of ids that line 21 can call and that are not in the cache yet.\<close>

definition todo :: "state \<Rightarrow> nat" where
  "todo s = card (dom (callee s) - dom (installedModules s))"

subsection \<open>Reachable states\<close>

text \<open>
  The states that the operations of the runtime produce from the initial state: the
  closure is entered through deliveries, and module code calls \<open>__webpack_require__\<close>
  and \<open>loadChunk\<close> (as \<open>__webpack_require__.e\<close>); the browser raises the events of the
  scripts and fires the timers. \<open>sound\<close> collects what holds in all of them; \<open>once\<close> says
  that no factory was invoked twice.
\<close>

definition once :: "state \<Rightarrow> bool" where
  "once s = (distinct (calls s) \<and> set (calls s) \<subseteq> dom (installedModules s))"

definition sound :: "state \<Rightarrow> bool" where
  "sound s =
     (chunkQueue s = [] \<and> finite (dom (modules s))
      \<and> list_all (\<lambda>c. c \<noteq> Fulfilled) (promises s)
      \<and> Some ` range Waiter \<inter> range (installedChunks s) = {}
      \<and> once s)"

inductive reachable :: "state \<Rightarrow> bool" where
  start: "reachable init"
| load: "reachable s \<Longrightarrow> reachable (snd (loadChunk s chunkId))"
| event: "reachable s \<Longrightarrow> reachable (script_onevent k ev s)"
| timer: "reachable s \<Longrightarrow> reachable (timer_fires k s)"
| deliver: "reachable s \<Longrightarrow> jsonp_push n s chunkData = Some (out, s') \<Longrightarrow> reachable s'"
| request: "reachable s \<Longrightarrow> require n s moduleId = Some (out, s') \<Longrightarrow> reachable s'"

subsection \<open>States used as concrete inputs\<close>

text \<open>Module \<open>a\<close> is registered with a factory that exports \<open>v = 1\<close>.\<close>

definition st_a :: state where
  "st_a = init\<lparr>modules := [''a'' \<mapsto> [SetExport ''v'' (Num 1)]]\<rparr>"

definition st_a_done :: state where
  "st_a_done = st_a\<lparr>
     installedModules := [''a'' \<mapsto> \<lparr>mod_i = ''a'', mod_l = True, mod_exports = Ref 0\<rparr>],
     heap := [[''v'' \<mapsto> Num 1]], calls := [''a'']\<rparr>"

text \<open>Module \<open>b\<close> writes \<open>v\<close>, throws, and would have written \<open>w\<close>.\<close>

definition st_b :: state where
  "st_b = init\<lparr>modules :=
     [''b'' \<mapsto> [SetExport ''v'' (Num 1), Throw (Str ''boom''), SetExport ''w'' (Num 2)]]\<rparr>"

definition st_b_failed :: state where
  "st_b_failed = st_b\<lparr>
     installedModules := [''b'' \<mapsto> \<lparr>mod_i = ''b'', mod_l = False, mod_exports = Ref 0\<rparr>],
     heap := [[''v'' \<mapsto> Num 1]], calls := [''b'']\<rparr>"

text \<open>The state after a first, failed request for the unregistered module \<open>x\<close>.\<close>

definition st_x_failed :: state where
  "st_x_failed = install ''x'' init"

text \<open>
  The delivery of a module under the id \<open>constructor\<close>, which is also its entry module, and
  the state after it.
\<close>

definition cd_constructor :: chunkData where
  "cd_constructor =
     ([''9''], [(''constructor'', [SetExport ''v'' (Num 1)])], Some ''constructor'')"

definition st_constructor :: state where
  "st_constructor = init\<lparr>
     modules := [''constructor'' \<mapsto> [SetExport ''v'' (Num 1)]],
     installedChunks := [''77'' \<mapsto> Zero, ''9'' \<mapsto> Zero],
     jsonpArray := [cd_constructor]\<rparr>"

text \<open>The state after a request for \<open>push\<close> in the initial state.\<close>

definition st_push :: state where
  "st_push = init\<lparr>
     installedModules := [''push'' \<mapsto> \<lparr>mod_i = ''push'', mod_l = True, mod_exports = Ref 0\<rparr>],
     heap := [[''0'' \<mapsto> ModuleRec ''push'', ''1'' \<mapsto> Ref 0, ''2'' \<mapsto> RequireFn,
               ''length'' \<mapsto> Num 3]],
     calls := [''push'']\<rparr>"

text \<open>
  \<open>st5\<close> is the state after \<open>loadChunk(5)\<close> in the initial state; its script is script
  \<open>0\<close>, its promise is promise \<open>0\<close>. \<open>st5_timed_out\<close> is the state after the timer of that
  script has fired.
\<close>

definition st5 :: state where
  "st5 = snd (loadChunk init ''5'')"

definition url5 :: string where
  "url5 = ''https://cdn2.edulastic.com/JS/dist/5.chunk.js''"

definition error_event :: event where
  "error_event = \<lparr>ev_type = ''error'', ev_target = Some url5\<rparr>"

definition load_event :: event where
  "load_event = \<lparr>ev_type = ''load'', ev_target = Some url5\<rparr>"

definition st5_timed_out :: state where
  "st5_timed_out = timer_fires 0 st5"

text \<open>
  \<open>st5_retry\<close> is the state after a second \<open>loadChunk(5)\<close>, made after the timeout: its
  script is script \<open>1\<close>, its promise is promise \<open>1\<close>. Script \<open>0\<close> is still in the
  document, with its handler.
\<close>

definition st5_retry :: state where
  "st5_retry = snd (loadChunk st5_timed_out ''5'')"

text \<open>
  Two deliveries of chunk \<open>5\<close> with one module \<open>m\<close>: with the entry module \<open>m\<close>, and
  without an entry module. \<open>st5_delivered\<close> is \<open>st5\<close> after the first,
  \<open>st_no_entry\<close> the initial state after the second.
\<close>

definition cd5 :: chunkData where
  "cd5 = ([''5''], [(''m'', [SetExport ''v'' (Num 1)])], Some ''m'')"

definition cd5_no_entry :: chunkData where
  "cd5_no_entry = ([''5''], [(''m'', [SetExport ''v'' (Num 1)])], None)"

definition st5_delivered :: state where
  "st5_delivered = st5\<lparr>
     modules := [''m'' \<mapsto> [SetExport ''v'' (Num 1)]],
     installedModules := [''m'' \<mapsto> \<lparr>mod_i = ''m'', mod_l = True, mod_exports = Ref 0\<rparr>],
     installedChunks := [''77'' \<mapsto> Zero, ''5'' \<mapsto> Zero],
     jsonpArray := [cd5], heap := [[''v'' \<mapsto> Num 1]], calls := [''m'']\<rparr>"


definition st_no_entry :: state where
  "st_no_entry = init\<lparr>
     modules := [''m'' \<mapsto> [SetExport ''v'' (Num 1)]],
     installedModules :=
       [''undefined'' \<mapsto> \<lparr>mod_i = ''undefined'', mod_l = False, mod_exports = Ref 0\<rparr>],
     installedChunks := [''77'' \<mapsto> Zero, ''5'' \<mapsto> Zero],
     jsonpArray := [cd5_no_entry], heap := [Map.empty]\<rparr>"

text \<open>A queue whose only entry \<open>m\<close> requires chunk \<open>5\<close>, which has not been delivered.\<close>

definition st_stuck :: state where
  "st_stuck = init\<lparr>chunkQueue := [[''m'', ''5'']]\<rparr>"

text \<open>
  A queue with two entries while only chunk \<open>A\<close> is complete: \<open>e\<close> requires \<open>A\<close> and
  \<open>B\<close>, \<open>m\<close> requires \<open>A\<close>. \<open>st_mixed_done\<close> is the state after one scan.
\<close>

definition st_mixed :: state where
  "st_mixed = init\<lparr>
     modules := [''m'' \<mapsto> [SetExport ''v'' (Num 1)]],
     installedChunks := [''77'' \<mapsto> Zero, ''A'' \<mapsto> Zero],
     chunkQueue := [[''e'', ''A'', ''B''], [''m'', ''A'']]\<rparr>"

definition st_mixed_done :: state where
  "st_mixed_done = st_mixed\<lparr>
     installedModules := [''m'' \<mapsto> \<lparr>mod_i = ''m'', mod_l = True, mod_exports = Ref 0\<rparr>],
     chunkQueue := [[''e'', ''A'', ''B'']], req_s := Some ''m'',
     heap := [[''v'' \<mapsto> Num 1]], calls := [''m''], fired := [[''m'', ''A'']]\<rparr>"



section \<open>Properties\<close>

subsection \<open>What a module execution leaves alone\<close>

lemma run_rel:
  assumes rfl: "\<And>s. R s s"
    and trn: "\<And>s t u. R s t \<Longrightarrow> R t u \<Longrightarrow> R s u"
    and rq: "\<And>s r res s'. req s r = Some (res, s') \<Longrightarrow> R s s'"
    and sp: "\<And>s k v. R s (set_prop a k v s)"
    and um: "\<And>s v. R s (upd_module moduleId (\<lambda>m. m\<lparr>mod_exports := v\<rparr>) s)"
  shows "run req moduleId a s body = Some (res, s') \<Longrightarrow> R s s'"
proof (induction body arbitrary: s)
  case Nil
  then show ?case using rfl by simp
next
  case (Cons st rest)
  show ?case
  proof (cases st)
    case (SetExport k v)
    with Cons.prems have "run req moduleId a (set_prop a k v s) rest = Some (res, s')" by simp
    then have "R (set_prop a k v s) s'" by (rule Cons.IH)
    then show ?thesis using sp trn by blast
  next
    case (SetExportArg k x)
    with Cons.prems
    have "run req moduleId a (set_prop a k (arg_val moduleId a x) s) rest = Some (res, s')"
      by simp
    then have "R (set_prop a k (arg_val moduleId a x) s) s'" by (rule Cons.IH)
    then show ?thesis using sp trn by blast
  next
    case (SetModuleExports v)
    with Cons.prems
    have "run req moduleId a (upd_module moduleId (\<lambda>m. m\<lparr>mod_exports := v\<rparr>) s) rest = Some (res, s')"
      by simp
    then have "R (upd_module moduleId (\<lambda>m. m\<lparr>mod_exports := v\<rparr>) s) s'" by (rule Cons.IH)
    then show ?thesis using um trn by blast
  next
    case (Require r)
    show ?thesis
    proof (cases "req s r")
      case None
      with Cons.prems Require show ?thesis by simp
    next
      case (Some p)
      obtain out t where p: "p = (out, t)" by (cases p)
      have st: "R s t" using rq Some p by blast
      show ?thesis
      proof (cases out)
        case (Inl e)
        with Cons.prems Require Some p have "s' = t" by simp
        with st show ?thesis by simp
      next
        case (Inr v)
        with Cons.prems Require Some p have "run req moduleId a t rest = Some (res, s')" by simp
        then have "R t s'" by (rule Cons.IH)
        with st show ?thesis using trn by blast
      qed
    qed
  next
    case (Throw v)
    with Cons.prems have "s' = s" by simp
    then show ?thesis using rfl by simp
  next
    case (Raise e)
    with Cons.prems have "s' = s" by simp
    then show ?thesis using rfl by simp
  qed
qed


lemma frame_refl: "frame s s"
  by (simp add: frame_def)

lemma frame_trans: "frame s t \<Longrightarrow> frame t u \<Longrightarrow> frame s u"
  by (simp add: frame_def)

lemma frame_set_prop: "frame s (set_prop a k v s)"
  by (simp add: frame_def set_prop_def)

lemma frame_upd_module: "frame s (upd_module y f s)"
  by (simp add: frame_def upd_module_def split: option.splits)

lemma frame_install: "frame s (install y s)"
  by (simp add: frame_def install_def)

lemma frame_calls: "frame s (s\<lparr>calls := c\<rparr>)"
  by (simp add: frame_def)

lemma require_cases:
  assumes "require (Suc n) s y = Some (res, s')"
  obtains
    (cached) m where "installedModules s y = Some m" "res = Inr (mod_exports m)" "s' = s"
  | (inherited) "installedModules s y = None" "y \<in> set (object_prototype s)"
      "res = Inr Undefined" "s' = s"
  | (missing) "installedModules s y = None" "callee s y = None"
      "res = Inl TypeError" "s' = install y s" "y \<notin> set (object_prototype s)"
  | (threw) f e where "installedModules s y = None" "callee s y = Some f"
      "run (require n) y (length (heap s)) ((install y s)\<lparr>calls := calls s @ [y]\<rparr>) f = Some (Inl e, s')"
      "res = Inl e" "y \<notin> set (object_prototype s)"
  | (returned) f u s2 where "installedModules s y = None" "callee s y = Some f"
      "run (require n) y (length (heap s)) ((install y s)\<lparr>calls := calls s @ [y]\<rparr>) f = Some (Inr u, s2)"
      "s' = upd_module y (\<lambda>m. m\<lparr>mod_l := True\<rparr>) s2"
      "res = Inr (module_exports s' y)" "y \<notin> set (object_prototype s)"
proof (cases "installedModules s y")
  case (Some m)
  with assms have "res = Inr (mod_exports m)" "s' = s" by simp_all
  with Some show ?thesis by (rule cached)
next
  case None
  note inst = this
  show ?thesis
  proof (cases "y \<in> set (object_prototype s)")
    case True
    with assms inst have "res = Inr Undefined" "s' = s" by simp_all
    with inst True show ?thesis by (rule inherited)
  next
    case False
    note np = this
    have mi: "callee (install y s) y = callee s y" and ci: "calls (install y s) = calls s"
      by (simp_all add: install_def callee_def)
    show ?thesis
    proof (cases "callee s y")
      case None
      with assms inst np mi have "res = Inl TypeError" "s' = install y s"
        by (simp_all add: Let_def)
      with inst None show ?thesis using np by (rule missing)
    next
      case (Some f)
      note fac = this
      show ?thesis
      proof (cases "run (require n) y (length (heap s)) ((install y s)\<lparr>calls := calls s @ [y]\<rparr>) f")
        case None
        with assms inst np mi ci fac show ?thesis by (simp add: Let_def)
      next
        case (Some p)
        note r = this
        obtain out t where p: "p = (out, t)" by (cases p)
        show ?thesis
        proof (cases out)
          case (Inl e)
          with assms inst np mi ci fac r p have "res = Inl e" "s' = t"
            by (simp_all add: Let_def)
          with inst fac r p Inl np show ?thesis using threw by simp
        next
          case (Inr u)
          with assms inst np mi ci fac r p
          have "s' = upd_module y (\<lambda>m. m\<lparr>mod_l := True\<rparr>) t"
            "res = Inr (module_exports s' y)"
            by (auto simp add: Let_def)
          with inst fac r p Inr np show ?thesis using returned by simp
        qed
      qed
    qed
  qed
qed

lemma require_frame: "require n s y = Some (res, s') \<Longrightarrow> frame s s'"
proof (induction n arbitrary: s y res s')
  case 0
  then show ?case by simp
next
  case (Suc n)
  have body: "frame t t'" if "run (require n) y a t f = Some (out, t')" for a t f out t'
    using that
    by (rule run_rel [where R = frame, rotated -1])
       (auto intro: frame_refl frame_trans frame_set_prop frame_upd_module Suc.IH)
  have start: "frame s ((install y s)\<lparr>calls := c\<rparr>)" for c
    using frame_install [of s y] frame_calls [of "install y s" c] frame_trans by blast
  from Suc.prems show ?case
  proof (cases rule: require_cases)
    case (cached m)
    then show ?thesis by (simp add: frame_refl)
  next
    case inherited
    then show ?thesis by (simp add: frame_refl)
  next
    case missing
    then show ?thesis by (simp add: frame_install)
  next
    case (threw f e)
    then show ?thesis using body start frame_trans by blast
  next
    case (returned f u s2)
    have "frame s s2" using returned(3) body start frame_trans by blast
    moreover have "frame s2 s'" using returned(4) by (simp add: frame_upd_module)
    ultimately show ?thesis by (rule frame_trans)
  qed
qed


lemma keeps_refl: "keeps x s s"
  by (simp add: keeps_def split: option.splits)

lemma keeps_trans: "keeps x s t \<Longrightarrow> keeps x t u \<Longrightarrow> keeps x s u"
  by (auto simp add: keeps_def split: option.splits)

lemma keeps_set_prop: "keeps x s (set_prop a k v s)"
  by (simp add: keeps_def set_prop_def split: option.splits)

lemma keeps_set_exports: "keeps x s (upd_module y (\<lambda>m. m\<lparr>mod_exports := v\<rparr>) s)"
  by (simp add: keeps_def upd_module_def split: option.splits)

lemma keeps_upd_other: "x \<noteq> y \<Longrightarrow> keeps x s (upd_module y f s)"
  by (simp add: keeps_def upd_module_def split: option.splits)

lemma keeps_install: "installedModules s y = None \<Longrightarrow> keeps x s (install y s)"
  by (auto simp add: keeps_def install_def split: option.splits)

lemma keeps_start:
  "installedModules s y = None \<Longrightarrow> keeps x s ((install y s)\<lparr>calls := calls s @ [y]\<rparr>)"
  by (auto simp add: keeps_def install_def split: option.splits)

lemma keeps_new: "installedModules s x = None \<Longrightarrow> keeps x s t"
  by (simp add: keeps_def)

lemma require_keeps: "require n s y = Some (res, s') \<Longrightarrow> keeps x s s'"
proof (induction n arbitrary: s y res s')
  case 0
  then show ?case by simp
next
  case (Suc n)
  have body: "keeps x t t'" if "run (require n) y a t f = Some (out, t')" for a t f out t'
    using that
    by (rule run_rel [where R = "keeps x", rotated -1])
       (auto intro: keeps_refl keeps_trans keeps_set_prop keeps_set_exports Suc.IH)
  from Suc.prems show ?case
  proof (cases rule: require_cases)
    case (cached m)
    then show ?thesis by (simp add: keeps_refl)
  next
    case inherited
    then show ?thesis by (simp add: keeps_refl)
  next
    case missing
    then show ?thesis by (simp add: keeps_install)
  next
    case (threw f e)
    then show ?thesis using body keeps_start keeps_trans by blast
  next
    case (returned f u s2)
    have a: "keeps x s s2" using returned(1,3) body keeps_start keeps_trans by blast
    show ?thesis
    proof (cases "x = y")
      case True
      with returned(1) show ?thesis by (simp add: keeps_new)
    next
      case False
      then have "keeps x s2 s'" using returned(4) by (simp add: keeps_upd_other)
      with a show ?thesis by (rule keeps_trans)
    qed
  qed
qed

lemma run_keeps: "run (require n) y a t f = Some (out, t') \<Longrightarrow> keeps x t t'"
  by (rule run_rel [where R = "keeps x", rotated -1])
     (auto intro: keeps_refl keeps_trans keeps_set_prop keeps_set_exports require_keeps)

subsection \<open>Fuel\<close>

text \<open>
  More fuel never changes a result, and a request ends with enough fuel when the table of
  factories is finite: every call of line 21 moves one id into the cache.
\<close>

lemma run_mono:
  assumes "\<And>s r res. req s r = Some res \<Longrightarrow> req' s r = Some res"
  shows "run req y a s body = Some res \<Longrightarrow> run req' y a s body = Some res"
proof (induction body arbitrary: s)
  case Nil
  then show ?case by simp
next
  case (Cons st rest)
  show ?case
  proof (cases st)
    case (Require r)
    from Cons.prems Require obtain p where p: "req s r = Some p"
      by (cases "req s r") auto
    then have p': "req' s r = Some p" by (rule assms)
    obtain out t where "p = (out, t)" by (cases p)
    with Cons.prems Require p p' Cons.IH show ?thesis by (cases out) auto
  qed (use Cons in auto)
qed

lemma callee_install: "callee ((install y s)\<lparr>calls := c\<rparr>) = callee s" "callee (install y s) = callee s"
  by (simp_all add: callee_def install_def)

lemma require_mono_Suc: "require n s y = Some res \<Longrightarrow> require (Suc n) s y = Some res"
proof (induction n arbitrary: s y res)
  case 0
  then show ?case by simp
next
  case (Suc n)
  have m: "run (require n) y a t f = Some p \<Longrightarrow> run (require (Suc n)) y a t f = Some p"
    for a t f p
    by (rule run_mono [of "require n"]) (rule Suc.IH)
  obtain out s' where res: "res = (out, s')" by (cases res)
  from Suc.prems [unfolded res] show ?case
  proof (cases rule: require_cases)
    case (cached m)
    then show ?thesis by (simp add: res)
  next
    case inherited
    then show ?thesis by (simp add: res)
  next
    case missing
    then show ?thesis by (simp add: res callee_install)
  next
    case (threw f e)
    have i: "calls (install y s) = calls s" by (simp add: install_def)
    from m [OF threw(3)] threw(1,2,4,5) show ?thesis
      by (simp add: res callee_install i Let_def)
  next
    case (returned f u s2)
    have i: "calls (install y s) = calls s" by (simp add: install_def)
    from m [OF returned(3)] returned(1,2,4,5,6) show ?thesis
      by (simp add: res callee_install i Let_def)
  qed
qed

lemma require_mono: "require n s y = Some res \<Longrightarrow> n \<le> m \<Longrightarrow> require m s y = Some res"
proof (induction m)
  case 0
  then show ?case by simp
next
  case (Suc m)
  show ?case
  proof (cases "n = Suc m")
    case True
    with Suc.prems show ?thesis by simp
  next
    case False
    with Suc.prems have "n \<le> m" by simp
    with Suc have "require m s y = Some res" by blast
    then show ?thesis by (rule require_mono_Suc)
  qed
qed

lemma run_require_mono:
  "run (require n) y a s body = Some res \<Longrightarrow> n \<le> m \<Longrightarrow> run (require m) y a s body = Some res"
  by (rule run_mono [of "require n"]) (auto intro: require_mono)


lemma finite_callee: "finite (dom (callee s)) = finite (dom (modules s))"
  by (simp add: callee_def finite_dom_map_of)

lemma require_grows:
  assumes "require n s y = Some (out, s')"
  shows "modules s' = modules s" and "callee s' = callee s"
    and "dom (installedModules s) \<subseteq> dom (installedModules s')"
proof -
  from require_frame [OF assms] show "modules s' = modules s" "callee s' = callee s"
    by (simp_all add: frame_def callee_def)
  show "dom (installedModules s) \<subseteq> dom (installedModules s')"
  proof
    fix x assume "x \<in> dom (installedModules s)"
    with require_keeps [OF assms, of x] show "x \<in> dom (installedModules s')"
      by (auto simp add: keeps_def split: option.splits)
  qed
qed

lemma require_todo:
  assumes "require n s y = Some (out, s')" "finite (dom (modules s))"
  shows "todo s' \<le> todo s"
proof -
  have "finite (dom (callee s) - dom (installedModules s))"
    using assms(2) by (simp add: finite_callee)
  moreover have "dom (callee s') - dom (installedModules s')
      \<subseteq> dom (callee s) - dom (installedModules s)"
    using require_grows(2,3) [OF assms(1)] by auto
  ultimately show ?thesis unfolding todo_def by (rule card_mono)
qed

lemma todo_set_prop: "todo (set_prop a k v s) = todo s" "modules (set_prop a k v s) = modules s"
  by (simp_all add: todo_def set_prop_def callee_def)

lemma todo_upd_module: "todo (upd_module y f s) = todo s" "modules (upd_module y f s) = modules s"
proof -
  have "dom (installedModules (upd_module y f s)) = dom (installedModules s)"
    by (auto simp add: upd_module_def split: option.splits)
  moreover have "callee (upd_module y f s) = callee s"
    by (simp add: callee_def upd_module_def split: option.splits)
  ultimately show "todo (upd_module y f s) = todo s" by (simp add: todo_def)
  show "modules (upd_module y f s) = modules s"
    by (simp add: upd_module_def split: option.splits)
qed

lemma todo_install:
  assumes "installedModules s y = None" "callee s y = Some f" "finite (dom (modules s))"
  shows "todo ((install y s)\<lparr>calls := c\<rparr>) < todo s"
proof -
  have "dom (callee s) - dom (installedModules ((install y s)\<lparr>calls := c\<rparr>))
      = (dom (callee s) - dom (installedModules s)) - {y}"
    by (auto simp add: install_def)
  moreover have "y \<in> dom (callee s) - dom (installedModules s)" using assms by auto
  moreover have "finite (dom (callee s) - dom (installedModules s))"
    using assms(3) by (simp add: finite_callee)
  ultimately have "card (dom (callee s) - dom (installedModules ((install y s)\<lparr>calls := c\<rparr>)))
      < card (dom (callee s) - dom (installedModules s))"
    by (simp only: card_Diff1_less)
  then show ?thesis by (simp only: todo_def callee_install)
qed

lemma run_terminates:
  assumes ih: "\<And>t r. finite (dom (modules t)) \<Longrightarrow> todo t \<le> j \<Longrightarrow> \<exists>n res. require n t r = Some res"
  shows "finite (dom (modules t)) \<Longrightarrow> todo t \<le> j \<Longrightarrow> \<exists>n res. run (require n) y a t body = Some res"
proof (induction body arbitrary: t)
  case Nil
  then show ?case by simp
next
  case (Cons st rest)
  show ?case
  proof (cases st)
    case (SetExport k v)
    with Cons.IH [of "set_prop a k v t"] Cons.prems show ?thesis by (simp add: todo_set_prop)
  next
    case (SetExportArg k x)
    with Cons.IH [of "set_prop a k (arg_val y a x) t"] Cons.prems show ?thesis
      by (simp add: todo_set_prop)
  next
    case (SetModuleExports v)
    with Cons.IH [of "upd_module y (\<lambda>m. m\<lparr>mod_exports := v\<rparr>) t"] Cons.prems show ?thesis
      by (simp add: todo_upd_module)
  next
    case (Throw v)
    then show ?thesis by simp
  next
    case (Raise e)
    then show ?thesis by simp
  next
    case (Require r)
    from ih [OF Cons.prems, of r] obtain n1 out t1 where r1: "require n1 t r = Some (out, t1)"
      by auto
    show ?thesis
    proof (cases out)
      case (Inl e)
      with r1 Require have "run (require n1) y a t (st # rest) = Some (Inl e, t1)" by simp
      then show ?thesis by blast
    next
      case (Inr v)
      have "finite (dom (modules t1))" "todo t1 \<le> j"
        using require_grows(1) [OF r1] require_todo [OF r1] Cons.prems by simp_all
      from Cons.IH [OF this] obtain n2 res where r2: "run (require n2) y a t1 rest = Some res"
        by auto
      have "require (max n1 n2) t r = Some (Inr v, t1)"
        using r1 Inr by (auto intro: require_mono)
      moreover have "run (require (max n1 n2)) y a t1 rest = Some res"
        using r2 by (auto intro: run_require_mono)
      ultimately have "run (require (max n1 n2)) y a t (st # rest) = Some res"
        using Require by simp
      then show ?thesis by blast
    qed
  qed
qed

lemma require_at_once:
  assumes "installedModules s y \<noteq> None \<or> y \<in> set (object_prototype s) \<or> callee s y = None"
  shows "\<exists>res. require (Suc 0) s y = Some res"
proof (cases "installedModules s y")
  case (Some m)
  then show ?thesis by simp
next
  case None
  show ?thesis
  proof (cases "y \<in> set (object_prototype s)")
    case True
    with None show ?thesis by simp
  next
    case False
    with None assms have "callee s y = None" by simp
    with None False show ?thesis by (simp add: callee_install)
  qed
qed

lemma require_terminates_bounded:
  "finite (dom (modules s)) \<Longrightarrow> todo s \<le> k \<Longrightarrow> \<exists>n res. require n s y = Some res"
proof (induction k arbitrary: s y)
  case 0
  show ?case
  proof (cases "installedModules s y \<noteq> None \<or> y \<in> set (object_prototype s) \<or> callee s y = None")
    case True
    then show ?thesis using require_at_once by blast
  next
    case False
    then obtain f where "installedModules s y = None" "callee s y = Some f" by auto
    from todo_install [OF this "0.prems"(1), of "[]"] "0.prems"(2) show ?thesis by simp
  qed
next
  case (Suc k)
  show ?case
  proof (cases "installedModules s y \<noteq> None \<or> y \<in> set (object_prototype s) \<or> callee s y = None")
    case True
    then show ?thesis using require_at_once by blast
  next
    case False
    then obtain f where inst: "installedModules s y = None" and fac: "callee s y = Some f"
      and np: "y \<notin> set (object_prototype s)" by auto
    let ?t = "(install y s)\<lparr>calls := calls s @ [y]\<rparr>"
    have fin: "finite (dom (modules ?t))" using Suc.prems(1) by (simp add: install_def)
    have le: "todo ?t \<le> k"
      using todo_install [OF inst fac Suc.prems(1), of "calls s @ [y]"] Suc.prems(2) by simp
    have "\<exists>n res. run (require n) y (length (heap s)) ?t f = Some res"
      using Suc.IH fin le by (rule run_terminates)
    then obtain n out t' where r: "run (require n) y (length (heap s)) ?t f = Some (out, t')"
      by auto
    have mi: "callee (install y s) y = Some f" "calls (install y s) = calls s"
      using fac by (simp_all add: callee_install) (simp add: install_def)
    show ?thesis
    proof (cases out)
      case (Inl e)
      with r inst np mi have "require (Suc n) s y = Some (Inl e, t')" by (simp add: Let_def)
      then show ?thesis by blast
    next
      case (Inr u)
      with r inst np mi have "\<exists>res. require (Suc n) s y = Some res" by (simp add: Let_def)
      then show ?thesis by blast
    qed
  qed
qed

lemma require_terminates:
  "finite (dom (modules s)) \<Longrightarrow> \<exists>n res. require n s y = Some res"
  using require_terminates_bounded [of s "todo s" y] by simp

subsection \<open>The module cache\<close>

lemma callee_apply:
  "callee s k = (case modules s k of Some f \<Rightarrow> Some f | None \<Rightarrow> map_of (array_prototype s) k)"
  by (simp add: callee_def map_add_def)

lemma es_plain:
  "map_of es_array_prototype ''a'' = None" "''a'' \<notin> set es_object_prototype"
  "map_of es_array_prototype ''b'' = None" "''b'' \<notin> set es_object_prototype"
  "map_of es_array_prototype ''m'' = None" "''m'' \<notin> set es_object_prototype"
  "map_of es_array_prototype ''x'' = None" "''x'' \<notin> set es_object_prototype"
  "map_of es_array_prototype ''undefined'' = None" "''undefined'' \<notin> set es_object_prototype"
  "''5'' \<notin> set es_object_prototype" "''push'' \<notin> set es_object_prototype"
  "''constructor'' \<in> set es_object_prototype"
  by (simp_all add: es_array_prototype_def es_object_prototype_def)

lemma es_push:
  "map_of es_array_prototype ''push'' =
     Some [SetExportArg ''0'' ArgModule, SetExportArg ''1'' ArgExports,
           SetExportArg ''2'' ArgRequire, SetExport ''length'' (Num 3)]"
  by (simp add: es_array_prototype_def)

lemma require_again:
  assumes "require n s moduleId = Some (Inr v, s1)"
  shows "require (Suc k) s1 moduleId = Some (Inr v, s1)"
    and "moduleId \<notin> set (object_prototype s) \<Longrightarrow>
      (\<exists>m. installedModules s1 moduleId = Some m \<and> mod_exports m = v)
      \<and> count_list (calls s1) moduleId
          = count_list (calls s) moduleId + (if installedModules s moduleId = None then 1 else 0)"
proof -
  from assms obtain j where "n = Suc j" by (cases n) auto
  with assms have r: "require (Suc j) s moduleId = Some (Inr v, s1)" by simp
  from r show "require (Suc k) s1 moduleId = Some (Inr v, s1)"
  proof (cases rule: require_cases)
    case (cached m)
    then show ?thesis by simp
  next
    case inherited
    then show ?thesis by simp
  next
    case missing
    then show ?thesis by simp
  next
    case (threw f e)
    then show ?thesis by simp
  next
    case (returned f u s2)
    let ?t = "(install moduleId s)\<lparr>calls := calls s @ [moduleId]\<rparr>"
    have k: "keeps moduleId ?t s2" using returned(3) by (rule run_keeps)
    have t: "installedModules ?t moduleId
        = Some \<lparr>mod_i = moduleId, mod_l = False, mod_exports = Ref (length (heap s))\<rparr>"
      by (simp add: install_def)
    from k t obtain m2 where m2: "installedModules s2 moduleId = Some m2"
      by (auto simp add: keeps_def split: option.splits)
    from m2 returned(4)
    have s1: "installedModules s1 moduleId = Some (m2\<lparr>mod_l := True\<rparr>)"
      by (simp add: upd_module_def)
    with returned(5) have "v = mod_exports (m2\<lparr>mod_l := True\<rparr>)" by (simp add: module_exports_def)
    with s1 show ?thesis by simp
  qed
  assume np: "moduleId \<notin> set (object_prototype s)"
  from r show "(\<exists>m. installedModules s1 moduleId = Some m \<and> mod_exports m = v)
      \<and> count_list (calls s1) moduleId
          = count_list (calls s) moduleId + (if installedModules s moduleId = None then 1 else 0)"
  proof (cases rule: require_cases)
    case (cached m)
    then show ?thesis by simp
  next
    case inherited
    with np show ?thesis by simp
  next
    case missing
    then show ?thesis by simp
  next
    case (threw f e)
    then show ?thesis by simp
  next
    case (returned f u s2)
    let ?t = "(install moduleId s)\<lparr>calls := calls s @ [moduleId]\<rparr>"
    have k: "keeps moduleId ?t s2" using returned(3) by (rule run_keeps)
    have t: "installedModules ?t moduleId
        = Some \<lparr>mod_i = moduleId, mod_l = False, mod_exports = Ref (length (heap s))\<rparr>"
      "count_list (calls ?t) moduleId = count_list (calls s) moduleId + 1"
      by (simp_all add: install_def)
    from k t obtain m2 where m2: "installedModules s2 moduleId = Some m2"
      and c2: "count_list (calls s2) moduleId = count_list (calls s) moduleId + 1"
      by (auto simp add: keeps_def split: option.splits)
    from m2 returned(4)
    have s1: "installedModules s1 moduleId = Some (m2\<lparr>mod_l := True\<rparr>)" "calls s1 = calls s2"
      by (simp_all add: upd_module_def)
    with returned(5) have "v = mod_exports (m2\<lparr>mod_l := True\<rparr>)" by (simp add: module_exports_def)
    with s1 c2 returned(1) show ?thesis by simp
  qed
qed

text \<open>
  Two requests in a row. A request for a module ends, given enough fuel, whenever the table
  of factories is finite. If it returns, then the same request made again, with any fuel,
  returns the identical value and changes nothing, so it makes no call. If moreover the id
  names no property of \<open>Object.prototype\<close>, that value is the reference held by the cached
  record, and over the two requests line 21 made its call for the id exactly once when the
  module was not in the cache before, and not at all when it was.
\<close>

lemma require_twice:
  "(finite (dom (modules s)) \<longrightarrow> (\<exists>n res. require n s moduleId = Some res))
   \<and> (require n s moduleId = Some (Inr v, s1) \<longrightarrow>
        require (Suc k) s1 moduleId = Some (Inr v, s1)
        \<and> (moduleId \<notin> set (object_prototype s) \<longrightarrow>
             (\<exists>m. installedModules s1 moduleId = Some m \<and> mod_exports m = v)
             \<and> count_list (calls s1) moduleId
                 = count_list (calls s) moduleId
                   + (if installedModules s moduleId = None then 1 else 0)))"
  using require_terminates [of s moduleId] require_again [of n s moduleId v s1]
  by blast

lemma require_twice_at_a:
  "finite (dom (modules st_a)) \<and> ''a'' \<notin> set (object_prototype st_a)
   \<and> require 2 st_a ''a'' = Some (Inr (Ref 0), st_a_done)
   \<and> require (Suc 0) st_a_done ''a'' = Some (Inr (Ref 0), st_a_done)
   \<and> installedModules st_a_done ''a''
        = Some \<lparr>mod_i = ''a'', mod_l = True, mod_exports = Ref 0\<rparr>
   \<and> count_list (calls st_a_done) ''a'' = 1"
proof -
  have h: "require 2 st_a ''a'' = Some (Inr (Ref 0), st_a_done)"
    by (simp add: numeral_2_eq_2 st_a_def st_a_done_def init_def install_def set_prop_def
        upd_module_def module_exports_def callee_apply es_plain)
  have c: "calls st_a = []" "installedModules st_a ''a'' = None" "finite (dom (modules st_a))"
    "''a'' \<notin> set (object_prototype st_a)"
    by (simp_all add: st_a_def init_def es_plain)
  have d: "installedModules st_a_done ''a''
        = Some \<lparr>mod_i = ''a'', mod_l = True, mod_exports = Ref 0\<rparr>"
    by (simp add: st_a_done_def)
  from require_twice [where s = st_a and n = 2 and moduleId = "''a''" and v = "Ref 0"
      and ?s1.0 = st_a_done and k = 0] h c d
  show ?thesis by simp
qed

text \<open>
  C1, evaluated at a module delivered under the id \<open>constructor\<close>, a name of
  \<open>Object.prototype\<close>. The delivery registers the factory and requests the module as its
  entry; line 13 finds the inherited value in place of a record, so the request returns
  \<open>undefined\<close>, a second request does the same, no record is cached, and the factory is
  never invoked. The delivery itself tests its tables with \<open>hasOwnProperty\<close> (lines 101 and
  109); lines 13 and 21 do not.
\<close>

theorem inherited_id_factory_never_invoked:
  "jsonp_push 2 init cd_constructor = Some (Inr Undefined, st_constructor)
   \<and> modules st_constructor ''constructor'' = Some [SetExport ''v'' (Num 1)]
   \<and> require 2 st_constructor ''constructor'' = Some (Inr Undefined, st_constructor)
   \<and> installedModules st_constructor ''constructor'' = None
   \<and> calls st_constructor = []"
proof -
  have p: "''constructor'' \<in> set (object_prototype st_constructor)"
    "installedModules st_constructor ''constructor'' = None"
    by (simp_all add: st_constructor_def init_def es_plain)
  then have r: "require 2 st_constructor ''constructor'' = Some (Inr Undefined, st_constructor)"
    by (simp add: numeral_2_eq_2)
  have i: "chunkQueue init = []" by (simp add: init_def)
  have "jsonp_push 2 init cd_constructor = Some (Inr Undefined, st_constructor)"
    by (simp add: jsonp_push_def cd_constructor_def [symmetric])
       (simp add: cd_constructor_def numeral_2_eq_2 init_def mark_chunk_def add_module_def
         key_of_def st_constructor_def es_plain)
  with p r show ?thesis by (simp add: st_constructor_def init_def)
qed

text \<open>
  C10. If a request for a module ends in an exception (its factory threw, a module it
  required threw, or it has no factory), the record stays in the cache with \<open>l\<close> still
  false, and every later request for that module returns the \<open>exports\<close> of that record and
  changes nothing: the factory is not invoked again.
\<close>

theorem factory_throw_stays_cached:
  assumes "require n s moduleId = Some (Inl e, s1)"
  shows "\<exists>m. installedModules s1 moduleId = Some m \<and> \<not> mod_l m
     \<and> (\<forall>k. require (Suc k) s1 moduleId = Some (Inr (mod_exports m), s1))"
proof (cases n)
  case 0
  with assms show ?thesis by simp
next
  case (Suc j)
  with assms have "require (Suc j) s moduleId = Some (Inl e, s1)" by simp
  then show ?thesis
  proof (cases rule: require_cases)
    case (cached m)
    then show ?thesis by simp
  next
    case inherited
    then show ?thesis by simp
  next
    case missing
    then show ?thesis by (simp add: install_def)
  next
    case (threw f e')
    let ?t = "(install moduleId s)\<lparr>calls := calls s @ [moduleId]\<rparr>"
    have k: "keeps moduleId ?t s1" using threw(3) by (rule run_keeps)
    have t: "installedModules ?t moduleId
        = Some \<lparr>mod_i = moduleId, mod_l = False, mod_exports = Ref (length (heap s))\<rparr>"
      by (simp add: install_def)
    from k t obtain m where "installedModules s1 moduleId = Some m" "\<not> mod_l m"
      by (auto simp add: keeps_def split: option.splits)
    then show ?thesis by simp
  next
    case (returned f u s2)
    then show ?thesis by simp
  qed
qed

theorem factory_throw_stays_cached_witness:
  "require 2 st_b ''b'' = Some (Inl (Thrown (Str ''boom'')), st_b_failed)
   \<and> (\<exists>m. installedModules st_b_failed ''b'' = Some m \<and> \<not> mod_l m
        \<and> (\<forall>k. require (Suc k) st_b_failed ''b'' = Some (Inr (mod_exports m), st_b_failed)))
   \<and> (heap st_b_failed ! 0) ''v'' = Some (Num 1) \<and> (heap st_b_failed ! 0) ''w'' = None"
proof -
  have h: "require 2 st_b ''b'' = Some (Inl (Thrown (Str ''boom'')), st_b_failed)"
    by (simp add: numeral_2_eq_2 st_b_def st_b_failed_def init_def install_def set_prop_def
        callee_apply es_plain)
  have "(heap st_b_failed ! 0) ''v'' = Some (Num 1)" "(heap st_b_failed ! 0) ''w'' = None"
    by (simp_all add: st_b_failed_def)
  with factory_throw_stays_cached [OF h] h show ?thesis by simp
qed

text \<open>
  C8 (as amended). Requesting a module id that has no registered factory, no record in the
  cache, and that names no property of \<open>Object.prototype\<close> and no method of
  \<open>Array.prototype\<close>, raises a \<open>TypeError\<close>: no exports value is returned, and a factory
  that made the request is left at that point with the same exception. The record installed
  before the lookup stays behind. What a request for an inherited name does is not part of
  the statement.
\<close>

theorem require_unregistered:
  assumes "modules s moduleId = None" and "installedModules s moduleId = None"
    and "moduleId \<notin> set (object_prototype s)"
    and "map_of (array_prototype s) moduleId = None"
  shows "require (Suc n) s moduleId = Some (Inl TypeError, install moduleId s)
     \<and> run (require (Suc n)) y a s (Require moduleId # rest)
         = Some (Inl TypeError, install moduleId s)"
proof -
  have "callee (install moduleId s) moduleId = None"
    using assms by (simp add: callee_apply install_def)
  with assms show ?thesis by (simp add: Let_def)
qed

theorem require_unregistered_witness:
  "modules init ''x'' = None \<and> installedModules init ''x'' = None
   \<and> ''x'' \<notin> set (object_prototype init) \<and> map_of (array_prototype init) ''x'' = None
   \<and> require (Suc 0) init ''x'' = Some (Inl TypeError, st_x_failed)
   \<and> run (require (Suc 0)) ''y'' 0 init [Require ''x'', SetExport ''v'' (Num 1)]
         = Some (Inl TypeError, st_x_failed)"
proof -
  have h: "modules init ''x'' = None" "installedModules init ''x'' = None"
    "''x'' \<notin> set (object_prototype init)" "map_of (array_prototype init) ''x'' = None"
    by (simp_all add: init_def es_plain)
  from require_unregistered [OF h, of 0 "''y''" 0 "[SetExport ''v'' (Num 1)]"] h
  show ?thesis by (simp add: st_x_failed_def)
qed

text \<open>
  C8 as stated fails in three ways. On the second request for \<open>x\<close>: the first one raises
  and leaves the record of \<open>x\<close> in the cache, the second finds it and returns its empty
  exports object, although \<open>x\<close> still has no factory. At the id \<open>constructor\<close>: line 13
  finds the inherited value and the call returns \<open>undefined\<close>. At the id \<open>push\<close>: line 21
  finds the inherited method, which writes its arguments into the exports object, and the
  call returns that object.
\<close>

theorem require_unregistered_again_counterexample:
  "modules init ''x'' = None
   \<and> require (Suc 0) init ''x'' = Some (Inl TypeError, st_x_failed)
   \<and> modules st_x_failed ''x'' = None
   \<and> require (Suc 0) st_x_failed ''x'' = Some (Inr (Ref 0), st_x_failed)
   \<and> modules init ''constructor'' = None \<and> installedModules init ''constructor'' = None
   \<and> require (Suc 0) init ''constructor'' = Some (Inr Undefined, init)
   \<and> modules init ''push'' = None \<and> installedModules init ''push'' = None
   \<and> require (Suc 0) init ''push'' = Some (Inr (Ref 0), st_push)"
proof -
  have x: "modules init ''x'' = None"
    "require (Suc 0) init ''x'' = Some (Inl TypeError, st_x_failed)"
    "modules st_x_failed ''x'' = None"
    "require (Suc 0) st_x_failed ''x'' = Some (Inr (Ref 0), st_x_failed)"
    by (simp_all add: st_x_failed_def install_def init_def callee_apply es_plain)
  have c: "modules init ''constructor'' = None" "installedModules init ''constructor'' = None"
    "require (Suc 0) init ''constructor'' = Some (Inr Undefined, init)"
    by (simp_all add: init_def es_plain)
  have p: "modules init ''push'' = None" "installedModules init ''push'' = None"
    "require (Suc 0) init ''push'' = Some (Inr (Ref 0), st_push)"
    by (simp_all add: init_def es_plain es_push callee_apply install_def set_prop_def
        arg_val_def upd_module_def module_exports_def st_push_def)
  from x c p show ?thesis by simp
qed

subsection \<open>Loading a chunk\<close>

lemma settle_pending:
  "p < length (promises s) \<Longrightarrow> promises s ! p = PPending \<Longrightarrow>
   settle p st s = s\<lparr>promises := (promises s)[p := st]\<rparr>"
  by (simp add: settle_def)

lemma script_onevent_waiter:
  assumes "k < length (scripts s)" "chunkStatus s (owner (scripts s ! k)) = Some (Waiter p)"
    "p < length (promises s)" "promises s ! p = PPending"
  shows "script_onevent k ev s =
     s\<lparr>scripts := (scripts s)[k := (scripts s ! k)
            \<lparr>timer := False, error := chunk_load_error (owner (scripts s ! k)) ev\<rparr>],
       promises := (promises s)[p := Rejected k],
       chunkStatus := (chunkStatus s)(owner (scripts s ! k) \<mapsto> Undef)\<rparr>"
  using assms
  by (simp add: script_onevent_def clearTimeout_def set_error_def settle_def Let_def)

lemma st5_facts:
  "scripts st5 = [\<lparr>charset = ''utf-8'', timeout = 120000, src = url5, owner = ''5'',
      error = new_Error, timer = True\<rparr>]"
  "promises st5 = [PPending]"
  "chunkStatus st5 = [''77'' \<mapsto> Zero, ''5'' \<mapsto> Waiter 0]"
  "fst (loadChunk init ''5'') = PromiseAll [Prom 0]"
  "object_prototype st5 = es_object_prototype" "array_prototype st5 = es_array_prototype"
  by (simp_all add: st5_def loadChunk_def init_def webpack_p_def url5_def es_plain)

lemma st5_timed_out_eq:
  "st5_timed_out = st5\<lparr>
     scripts := [\<lparr>charset = ''utf-8'', timeout = 120000, src = url5, owner = ''5'',
        error = chunk_load_error ''5'' (Some \<lparr>ev_type = ''timeout'', ev_target = Some url5\<rparr>),
        timer = False\<rparr>],
     promises := [Rejected 0],
     chunkStatus := [''77'' \<mapsto> Zero, ''5'' \<mapsto> Undef]\<rparr>"
  by (simp add: st5_timed_out_def timer_fires_def script_onevent_waiter st5_facts)

lemma clearTimeout_idle:
  "k < length (scripts s) \<Longrightarrow> \<not> timer (scripts s ! k) \<Longrightarrow> clearTimeout k s = s"
  by (simp add: clearTimeout_def list_update_same_conv)

lemma script_onevent_settled:
  assumes "k < length (scripts s)"
    and "chunkStatus s (owner (scripts s ! k)) = Some Undef
         \<or> chunkStatus s (owner (scripts s ! k)) = Some Zero"
  shows "script_onevent k ev s = clearTimeout k s"
proof -
  have o: "owner (scripts (clearTimeout k s) ! k) = owner (scripts s ! k)"
    "chunkStatus (clearTimeout k s) = chunkStatus s"
    using assms(1) by (simp_all add: clearTimeout_def)
  from assms(2) show ?thesis
  proof
    assume u: "chunkStatus s (owner (scripts s ! k)) = Some Undef"
    then have "(chunkStatus s)(owner (scripts s ! k) \<mapsto> Undef) = chunkStatus s"
      by (simp add: map_upd_triv)
    with u assms(1) o show ?thesis
      by (simp add: script_onevent_def Let_def clearTimeout_def)
  next
    assume "chunkStatus s (owner (scripts s ! k)) = Some Zero"
    with assms(1) o show ?thesis by (simp add: script_onevent_def Let_def)
  qed
qed

text \<open>
  C5. Let the slot of a chunk hold the array of a pending promise \<open>p\<close>, and let the script
  \<open>k\<close> of that chunk receive an event whose target is the script. Then the future
  \<open>Promise.all([p])\<close> that \<open>loadChunk\<close> returned is rejected with the error object of
  the script, whose \<open>type\<close> is the type of the event (and \<open>missing\<close> for the event
  \<open>load\<close>), whose \<open>request\<close> is the \<open>src\<close> of the script and whose message names the
  chunk id; the slot is reset to \<open>undefined\<close>; and the next \<open>loadChunk\<close> for the chunk
  creates a new promise and appends a new script for the locator of the chunk.
\<close>

theorem load_error_rejects_and_resets:
  assumes "k < length (scripts s)"
    and "chunkStatus s (owner (scripts s ! k)) = Some (Waiter p)"
    and "p < length (promises s)" and "promises s ! p = PPending"
    and "ev_target e = Some (src (scripts s ! k))"
  shows "let chunkId = owner (scripts s ! k); s' = script_onevent k (Some e) s;
             type = (if ev_type e = ''load'' then ''missing'' else ev_type e) in
      future_state s' (PromiseAll [Prom p]) = Rejected k
    \<and> err_type (error (scripts s' ! k)) = Some type
    \<and> err_request (error (scripts s' ! k)) = Some (src (scripts s ! k))
    \<and> err_message (error (scripts s' ! k)) =
         ''Loading chunk '' @ chunkId @ '' failed.'' @ [CHR 0x0A] @ ''(''
           @ type @ '': '' @ src (scripts s ! k) @ '')''
    \<and> chunkStatus s' chunkId = Some Undef
    \<and> fst (loadChunk s' chunkId) = PromiseAll [Prom (length (promises s'))]
    \<and> scripts (snd (loadChunk s' chunkId)) =
         scripts s' @ [\<lparr>charset = ''utf-8'', timeout = 120000,
            src = webpack_p @ chunkId @ ''.chunk.js'', owner = chunkId,
            error = new_Error, timer = True\<rparr>]
    \<and> chunkStatus (snd (loadChunk s' chunkId)) chunkId = Some (Waiter (length (promises s')))"
  using assms
  by (simp add: script_onevent_waiter Let_def elem_state_def loadChunk_def
      chunk_load_error_def event_type_def event_request_def show_opt_def)

theorem load_error_rejects_and_resets_witness:
  "(let s' = script_onevent 0 (Some error_event) st5 in
      future_state s' (PromiseAll [Prom 0]) = Rejected 0
    \<and> err_type (error (scripts s' ! 0)) = Some ''error''
    \<and> err_request (error (scripts s' ! 0)) = Some url5
    \<and> chunkStatus s' ''5'' = Some Undef
    \<and> fst (loadChunk s' ''5'') = PromiseAll [Prom 1]
    \<and> length (scripts (snd (loadChunk s' ''5''))) = 2)"
proof -
  have h: "0 < length (scripts st5)" "chunkStatus st5 (owner (scripts st5 ! 0)) = Some (Waiter 0)"
    "0 < length (promises st5)" "promises st5 ! 0 = PPending"
    "ev_target error_event = Some (src (scripts st5 ! 0))"
    by (simp_all add: st5_facts error_event_def)
  define s' where "s' = script_onevent 0 (Some error_event) st5"
  have o: "owner (scripts st5 ! 0) = ''5''" "src (scripts st5 ! 0) = url5"
    "ev_type error_event = ''error''"
    by (simp_all add: st5_facts error_event_def)
  have p: "length (promises s') = 1" "length (scripts s') = 1"
    using h by (simp_all add: s'_def script_onevent_waiter st5_facts)
  note r = load_error_rejects_and_resets [OF h, unfolded Let_def o, folded s'_def, unfolded p]
  from r have "length (scripts (snd (loadChunk s' ''5''))) = 2"
    by (simp add: p)
  with r show ?thesis unfolding Let_def s'_def [symmetric] by simp
qed

text \<open>
  A promise that is settled is not settled again, whatever event arrives at whatever script
  and whatever timer fires. Cancelling a timer changes no promise, no slot and no error
  object.
\<close>

lemma script_onevent_keeps_settled:
  assumes "q < length (promises s)" "promises s ! q \<noteq> PPending"
  shows "promises (script_onevent k ev s) ! q = promises s ! q"
proof (cases "k < length (scripts s)")
  case False
  then show ?thesis by (simp add: script_onevent_def)
next
  case True
  have s: "promises (settle p st t) ! q = promises t ! q"
    if "promises t = promises s" for p st t
    using that assms by (auto simp add: settle_def nth_list_update)
  show ?thesis
  proof (cases "chunkStatus s (owner (scripts s ! k))")
    case None
    with True show ?thesis by (simp add: script_onevent_def clearTimeout_def Let_def)
  next
    case (Some sl)
    with True s show ?thesis
      by (cases sl) (simp_all add: script_onevent_def clearTimeout_def set_error_def Let_def)
  qed
qed

lemma timer_fires_keeps_settled:
  assumes "q < length (promises s)" "promises s ! q \<noteq> PPending"
  shows "promises (timer_fires k s) ! q = promises s ! q"
  using assms by (simp add: timer_fires_def script_onevent_keeps_settled)

lemma clearTimeout_frame:
  "promises (clearTimeout k s) = promises s" "chunkStatus (clearTimeout k s) = chunkStatus s"
  "k < length (scripts s) \<Longrightarrow> map error (scripts (clearTimeout k s)) = map error (scripts s)"
  by (simp_all add: clearTimeout_def map_update list_update_same_conv)

lemma st5_retry_facts:
  "scripts st5_retry = scripts st5_timed_out @
     [\<lparr>charset = ''utf-8'', timeout = 120000, src = url5, owner = ''5'',
       error = new_Error, timer = True\<rparr>]"
  "promises st5_retry = [Rejected 0, PPending]"
  "chunkStatus st5_retry = [''77'' \<mapsto> Zero, ''5'' \<mapsto> Waiter 1]"
  "fst (loadChunk st5_timed_out ''5'') = PromiseAll [Prom 1]"
  by (simp_all add: st5_retry_def loadChunk_def st5_timed_out_eq webpack_p_def url5_def)

text \<open>
  C4 (as amended). If the timer of script \<open>k\<close> fires while the slot of its chunk still holds
  the array of a pending promise \<open>p\<close>, the future \<open>Promise.all([p])\<close> is rejected with the
  error object of the script, whose \<open>type\<close> is \<open>timeout\<close> and whose \<open>request\<close> is the
  \<open>src\<close> of the script; after that any event at the script and a second firing change
  nothing. Whenever the slot of the chunk of a script is \<open>undefined\<close> or \<open>0\<close>, an event at
  the script only cancels its timer: promises, slots and error objects stay as they are. No
  event and no timer settles a promise a second time: a settled promise stays fulfilled, or
  rejected with the error object of the same script. What an event at an earlier script of
  a chunk does once a later request has put a new array into the slot is not part of the
  statement.
\<close>

theorem timeout_rejects_and_late_signals:
  "(k < length (scripts s) \<and> timer (scripts s ! k)
      \<and> chunkStatus s (owner (scripts s ! k)) = Some (Waiter p)
      \<and> p < length (promises s) \<and> promises s ! p = PPending
    \<longrightarrow> (let s' = timer_fires k s in
          future_state s' (PromiseAll [Prom p]) = Rejected k
        \<and> err_type (error (scripts s' ! k)) = Some ''timeout''
        \<and> err_request (error (scripts s' ! k)) = Some (src (scripts s ! k))
        \<and> chunkStatus s' (owner (scripts s ! k)) = Some Undef
        \<and> script_onevent k ev s' = s' \<and> timer_fires k s' = s'))
   \<and> (k < length (scripts s)
      \<and> (chunkStatus s (owner (scripts s ! k)) = Some Undef
          \<or> chunkStatus s (owner (scripts s ! k)) = Some Zero)
    \<longrightarrow> (let s' = script_onevent k ev s in
          s' = clearTimeout k s \<and> promises s' = promises s \<and> chunkStatus s' = chunkStatus s
        \<and> map error (scripts s') = map error (scripts s)))
   \<and> (q < length (promises s) \<and> promises s ! q \<noteq> PPending
    \<longrightarrow> promises (script_onevent k ev s) ! q = promises s ! q
        \<and> promises (timer_fires k s) ! q = promises s ! q)"
proof (intro conjI impI)
  assume a: "k < length (scripts s)
      \<and> (chunkStatus s (owner (scripts s ! k)) = Some Undef
          \<or> chunkStatus s (owner (scripts s ! k)) = Some Zero)"
  then have "script_onevent k ev s = clearTimeout k s" by (simp add: script_onevent_settled)
  with a show "let s' = script_onevent k ev s in
          s' = clearTimeout k s \<and> promises s' = promises s \<and> chunkStatus s' = chunkStatus s
        \<and> map error (scripts s') = map error (scripts s)"
    by (simp add: clearTimeout_frame)
next
  assume "q < length (promises s) \<and> promises s ! q \<noteq> PPending"
  then show "promises (script_onevent k ev s) ! q = promises s ! q"
    "promises (timer_fires k s) ! q = promises s ! q"
    by (simp_all add: script_onevent_keeps_settled timer_fires_keeps_settled)
next
  assume a: "k < length (scripts s) \<and> timer (scripts s ! k)
      \<and> chunkStatus s (owner (scripts s ! k)) = Some (Waiter p)
      \<and> p < length (promises s) \<and> promises s ! p = PPending"
  define s' where "s' = timer_fires k s"
  define ev0 where "ev0 = \<lparr>ev_type = ''timeout'', ev_target = Some (src (scripts s ! k))\<rparr>"
  have s': "s' = s\<lparr>scripts := (scripts s)[k := (scripts s ! k)
            \<lparr>timer := False, error := chunk_load_error (owner (scripts s ! k)) (Some ev0)\<rparr>],
       promises := (promises s)[p := Rejected k],
       chunkStatus := (chunkStatus s)(owner (scripts s ! k) \<mapsto> Undef)\<rparr>"
    using a by (simp add: s'_def timer_fires_def script_onevent_waiter ev0_def)
  have k': "k < length (scripts s')" "\<not> timer (scripts s' ! k)"
    "owner (scripts s' ! k) = owner (scripts s ! k)"
    "chunkStatus s' (owner (scripts s ! k)) = Some Undef"
    using a by (simp_all add: s')
  have late: "script_onevent k ev s' = s'"
    using k' by (simp add: script_onevent_settled clearTimeout_idle)
  have again: "timer_fires k s' = s'" using k' by (simp add: timer_fires_def)
  have "future_state s' (PromiseAll [Prom p]) = Rejected k"
    using a by (simp add: s' elem_state_def)
  moreover have "err_type (error (scripts s' ! k)) = Some ''timeout''"
    "err_request (error (scripts s' ! k)) = Some (src (scripts s ! k))"
    using a by (simp_all add: s' chunk_load_error_def event_type_def event_request_def ev0_def)
  ultimately show "let s' = timer_fires k s in
          future_state s' (PromiseAll [Prom p]) = Rejected k
        \<and> err_type (error (scripts s' ! k)) = Some ''timeout''
        \<and> err_request (error (scripts s' ! k)) = Some (src (scripts s ! k))
        \<and> chunkStatus s' (owner (scripts s ! k)) = Some Undef
        \<and> script_onevent k ev s' = s' \<and> timer_fires k s' = s'"
    using k'(4) late again unfolding s'_def Let_def by blast
qed

theorem timeout_rejects_and_late_signals_witness:
  "future_state st5_timed_out (PromiseAll [Prom 0]) = Rejected 0
   \<and> err_type (error (scripts st5_timed_out ! 0)) = Some ''timeout''
   \<and> chunkStatus st5_timed_out ''5'' = Some Undef
   \<and> script_onevent 0 (Some load_event) st5_timed_out = st5_timed_out
   \<and> timer_fires 0 st5_timed_out = st5_timed_out
   \<and> promises (script_onevent 0 (Some error_event) st5_timed_out) = promises st5_timed_out
   \<and> promises (script_onevent 0 (Some load_event) st5_retry) ! 0 = Rejected 0"
proof -
  have h: "0 < length (scripts st5) \<and> timer (scripts st5 ! 0)
      \<and> chunkStatus st5 (owner (scripts st5 ! 0)) = Some (Waiter 0)
      \<and> 0 < length (promises st5) \<and> promises st5 ! 0 = PPending"
    by (simp add: st5_facts)
  have o: "owner (scripts st5 ! 0) = ''5''" by (simp add: st5_facts)
  have g: "0 < length (scripts st5_timed_out)
      \<and> (chunkStatus st5_timed_out (owner (scripts st5_timed_out ! 0)) = Some Undef
          \<or> chunkStatus st5_timed_out (owner (scripts st5_timed_out ! 0)) = Some Zero)"
    by (simp add: st5_timed_out_eq)
  have r: "0 < length (promises st5_retry) \<and> promises st5_retry ! 0 \<noteq> PPending"
    "promises st5_retry ! 0 = Rejected 0"
    by (simp_all add: st5_retry_facts)
  from timeout_rejects_and_late_signals [where k = 0 and s = st5 and p = 0 and ev = "Some load_event"] h
  have a: "future_state st5_timed_out (PromiseAll [Prom 0]) = Rejected 0
   \<and> err_type (error (scripts st5_timed_out ! 0)) = Some ''timeout''
   \<and> chunkStatus st5_timed_out ''5'' = Some Undef
   \<and> script_onevent 0 (Some load_event) st5_timed_out = st5_timed_out
   \<and> timer_fires 0 st5_timed_out = st5_timed_out"
    unfolding Let_def o st5_timed_out_def by blast
  from timeout_rejects_and_late_signals [where k = 0 and s = st5_timed_out and ev = "Some error_event"] g
  have b: "promises (script_onevent 0 (Some error_event) st5_timed_out) = promises st5_timed_out"
    unfolding Let_def by blast
  from timeout_rejects_and_late_signals [where k = 0 and s = st5_retry and ev = "Some load_event" and q = 0] r
  have "promises (script_onevent 0 (Some load_event) st5_retry) ! 0 = Rejected 0"
    by simp
  with a b show ?thesis by blast
qed

text \<open>
  C4 as stated fails in two ways. The error of a timeout carries the locator of the script
  as its \<open>request\<close>: the timer passes the script as the target of its event. And the
  handler of a script stays attached and reads the slot of the chunk, not of the request:
  after the timeout of the first request for chunk \<open>5\<close> and a second request for it, a
  \<open>load\<close> event arriving at the first script rejects the future of the second request,
  and changes the \<open>type\<close> of the error that rejected the first from \<open>timeout\<close> to
  \<open>missing\<close>.
\<close>

theorem timeout_carries_request_counterexample:
  "fst (loadChunk init ''5'') = PromiseAll [Prom 0]
   \<and> future_state (timer_fires 0 (snd (loadChunk init ''5''))) (PromiseAll [Prom 0]) = Rejected 0
   \<and> err_type (error (scripts (timer_fires 0 (snd (loadChunk init ''5''))) ! 0)) = Some ''timeout''
   \<and> err_request (error (scripts (timer_fires 0 (snd (loadChunk init ''5''))) ! 0))
        = Some ''https://cdn2.edulastic.com/JS/dist/5.chunk.js''
   \<and> chunkStatus st5_timed_out ''5'' = Some Undef
   \<and> fst (loadChunk st5_timed_out ''5'') = PromiseAll [Prom 1]
   \<and> future_state st5_retry (PromiseAll [Prom 1]) = PPending
   \<and> future_state (script_onevent 0 (Some load_event) st5_retry) (PromiseAll [Prom 1])
        = Rejected 0
   \<and> err_type (error (scripts (script_onevent 0 (Some load_event) st5_retry) ! 0))
        = Some ''missing''"
proof -
  have a: "fst (loadChunk init ''5'') = PromiseAll [Prom 0]
   \<and> future_state (timer_fires 0 (snd (loadChunk init ''5''))) (PromiseAll [Prom 0]) = Rejected 0
   \<and> err_type (error (scripts (timer_fires 0 (snd (loadChunk init ''5''))) ! 0)) = Some ''timeout''
   \<and> err_request (error (scripts (timer_fires 0 (snd (loadChunk init ''5''))) ! 0))
        = Some ''https://cdn2.edulastic.com/JS/dist/5.chunk.js''"
    using st5_timed_out_eq
    by (simp add: st5_timed_out_def st5_def [symmetric] st5_facts elem_state_def
        chunk_load_error_def event_request_def event_type_def url5_def)
  have w: "0 < length (scripts st5_retry)"
    "chunkStatus st5_retry (owner (scripts st5_retry ! 0)) = Some (Waiter 1)"
    "1 < length (promises st5_retry)" "promises st5_retry ! 1 = PPending"
    by (simp_all add: st5_retry_facts st5_timed_out_eq nth_append)
  have "future_state (script_onevent 0 (Some load_event) st5_retry) (PromiseAll [Prom 1])
        = Rejected 0"
    "err_type (error (scripts (script_onevent 0 (Some load_event) st5_retry) ! 0))
        = Some ''missing''"
    by (simp_all add: script_onevent_waiter [OF w] st5_retry_facts st5_timed_out_eq
        elem_state_def chunk_load_error_def event_type_def load_event_def nth_append)
  moreover have "future_state st5_retry (PromiseAll [Prom 1]) = PPending"
    by (simp add: st5_retry_facts elem_state_def)
  moreover have "chunkStatus st5_timed_out ''5'' = Some Undef" by (simp add: st5_timed_out_eq)
  ultimately show ?thesis using a st5_retry_facts(4) by simp
qed

text \<open>
  C2, evaluated at \<open>loadChunk(5)\<close> followed by the delivery of chunk \<open>5\<close>. The delivery
  sets \<open>installedChunks[5]\<close> to \<open>0\<close> and returns the exports of the entry module, but the
  array of the promise is in \<open>chunkStatus[5]\<close>, which the delivery neither reads nor
  writes: the promise stays pending, and the \<open>load\<close> event of the script then rejects it
  with the type \<open>missing\<close>.
\<close>

theorem delivery_leaves_promise_pending:
  "fst (loadChunk init ''5'') = PromiseAll [Prom 0]
   \<and> jsonp_push 2 st5 cd5 = Some (Inr (Ref 0), st5_delivered)
   \<and> installedChunks st5_delivered ''5'' = Some Zero
   \<and> chunkStatus st5_delivered ''5'' = Some (Waiter 0)
   \<and> future_state st5_delivered (PromiseAll [Prom 0]) = PPending
   \<and> future_state (script_onevent 0 (Some load_event) st5_delivered) (PromiseAll [Prom 0])
        = Rejected 0
   \<and> err_type (error (scripts (script_onevent 0 (Some load_event) st5_delivered) ! 0))
        = Some ''missing''"
proof -
  have i: "modules st5 = Map.empty" "installedModules st5 = Map.empty"
    "installedChunks st5 = [''77'' \<mapsto> Zero]" "chunkQueue st5 = []" "heap st5 = []"
    "calls st5 = []" "jsonpArray st5 = []"
    by (simp_all add: st5_def loadChunk_def init_def es_plain)
  have d: "jsonp_push 2 st5 cd5 = Some (Inr (Ref 0), st5_delivered)"
    by (simp add: jsonp_push_def cd5_def [symmetric])
       (simp add: cd5_def numeral_2_eq_2 i mark_chunk_def add_module_def key_of_def install_def
         set_prop_def upd_module_def module_exports_def st5_delivered_def callee_apply
         st5_facts es_plain)
  have f: "scripts st5_delivered = scripts st5" "promises st5_delivered = promises st5"
    "chunkStatus st5_delivered = chunkStatus st5"
    "installedChunks st5_delivered ''5'' = Some Zero"
    by (simp_all add: st5_delivered_def)
  have w: "0 < length (scripts st5_delivered)"
    "chunkStatus st5_delivered (owner (scripts st5_delivered ! 0)) = Some (Waiter 0)"
    "0 < length (promises st5_delivered)" "promises st5_delivered ! 0 = PPending"
    by (simp_all add: f st5_facts)
  have "future_state (script_onevent 0 (Some load_event) st5_delivered) (PromiseAll [Prom 0])
        = Rejected 0"
    "err_type (error (scripts (script_onevent 0 (Some load_event) st5_delivered) ! 0))
        = Some ''missing''"
    by (simp_all add: script_onevent_waiter [OF w] f st5_facts elem_state_def
        chunk_load_error_def event_type_def load_event_def)
  moreover have "future_state st5_delivered (PromiseAll [Prom 0]) = PPending"
    by (simp add: f st5_facts elem_state_def)
  ultimately show ?thesis using d f by (simp add: st5_facts)
qed

text \<open>
  C3, evaluated at two calls \<open>loadChunk(5)\<close> in a row. The second appends no script and
  changes nothing, but its array \<open>promises\<close> holds the array
  \<open>[resolve, reject, promise]\<close> instead of the promise: its future is fulfilled while the
  first is pending, and stays fulfilled when the timer rejects the first.
\<close>

theorem second_loadChunk_resolves_at_once:
  "loadChunk init ''5'' = (PromiseAll [Prom 0], st5)
   \<and> loadChunk st5 ''5'' = (PromiseAll [Tuple 0], st5)
   \<and> future_state st5 (PromiseAll [Prom 0]) = PPending
   \<and> future_state st5 (PromiseAll [Tuple 0]) = Fulfilled
   \<and> future_state (timer_fires 0 st5) (PromiseAll [Prom 0]) = Rejected 0
   \<and> future_state (timer_fires 0 st5) (PromiseAll [Tuple 0]) = Fulfilled"
proof -
  have "loadChunk init ''5'' = (PromiseAll [Prom 0], st5)"
    using st5_facts(4) by (simp add: st5_def prod_eq_iff)
  moreover have "loadChunk st5 ''5'' = (PromiseAll [Tuple 0], st5)"
    by (simp add: loadChunk_def st5_facts)
  moreover have "future_state (timer_fires 0 st5) (PromiseAll [Prom 0]) = Rejected 0"
    using st5_timed_out_eq by (simp add: st5_timed_out_def elem_state_def)
  ultimately show ?thesis by (simp add: elem_state_def st5_facts)
qed

subsection \<open>The delivery\<close>

text \<open>
  C9, evaluated at a delivery without an entry module. After marking chunk \<open>5\<close>, merging
  the factory of \<open>m\<close> and passing the empty queue, the call
  \<open>__webpack_require__(undefined)\<close> installs a record under the key \<open>undefined\<close> and raises
  a \<open>TypeError\<close>; this holds with any fuel.
\<close>

theorem delivery_without_entry_throws:
  "jsonp_push (Suc n) init cd5_no_entry = Some (Inl TypeError, st_no_entry)"
  by (simp add: jsonp_push_def cd5_no_entry_def [symmetric])
     (simp add: cd5_no_entry_def init_def mark_chunk_def add_module_def key_of_def install_def
       st_no_entry_def callee_apply es_plain)

text \<open>
  A batch with a module under the key \<open>length\<close>: the merge raises at that key, after the
  chunk was marked and the module before it was merged; the batch is not appended and the
  entry module is not requested. A batch with a module under the key \<open>__proto__\<close>
  registers no factory, and \<open>push\<close> names nothing to call afterwards.
\<close>

lemma delivery_of_length_raises:
  "jsonp_push n init ([''5''], [(''m'', []), (''length'', []), (''k'', [])], Some ''m'')
     = Some (Inl RangeError,
         init\<lparr>modules := [''m'' \<mapsto> []],
              installedChunks := [''77'' \<mapsto> Zero, ''5'' \<mapsto> Zero]\<rparr>)"
  by (simp add: jsonp_push_def mark_chunk_def add_module_def init_def)

lemma delivery_of_proto_replaces_prototype:
  "delivered init ([], [(''__proto__'', [])], None)
     = (Inr (), init\<lparr>jsonpArray := [([], [(''__proto__'', [])], None)],
                     array_prototype := []\<rparr>)"
  "callee (snd (delivered init ([], [(''__proto__'', [])], None))) ''push'' = None"
  by (simp_all add: delivered_def add_module_def init_def es_object_prototype_def
      callee_apply)

subsection \<open>The deferred queue\<close>

lemma fulfilled_cong: "installedChunks s' = installedChunks s \<Longrightarrow> fulfilled s' d = fulfilled s d"
  by (simp add: fulfilled_def)

lemma scan_split:
  "chunkQueue s = pre @ post \<Longrightarrow> scan n (length pre) r s = Some (out, s') \<Longrightarrow>
   \<exists>fs rest post'. chunkQueue s' = pre @ post'
     \<and> filter (fulfilled s) post = fs @ rest
     \<and> fired s' = fired s @ fs
     \<and> filter (\<lambda>d. \<not> fulfilled s d) post' = filter (\<lambda>d. \<not> fulfilled s d) post
     \<and> filter (fulfilled s) post' = rest
     \<and> (\<not> isl out \<longrightarrow> rest = [])
     \<and> installedChunks s' = installedChunks s"
proof (induction n arbitrary: pre post r s)
  case 0
  then show ?case by simp
next
  case (Suc n)
  show ?case
  proof (cases post)
    case Nil
    with Suc.prems show ?thesis by simp
  next
    case (Cons d post0)
    with Suc.prems(1) have j: "length pre < length (chunkQueue s)"
      and d: "chunkQueue s ! length pre = d" by simp_all
    show ?thesis
    proof (cases "fulfilled s d")
      case False
      with Suc.prems j d have sc: "scan n (length (pre @ [d])) r s = Some (out, s')"
        by (simp add: Let_def)
      have q: "chunkQueue s = (pre @ [d]) @ post0" using Suc.prems(1) Cons by simp
      from Suc.IH [OF q sc] obtain fs rest post'
        where "chunkQueue s' = (pre @ [d]) @ post'" "filter (fulfilled s) post0 = fs @ rest"
          "fired s' = fired s @ fs"
          "filter (\<lambda>d. \<not> fulfilled s d) post' = filter (\<lambda>d. \<not> fulfilled s d) post0"
          "filter (fulfilled s) post' = rest" "\<not> isl out \<longrightarrow> rest = []"
          "installedChunks s' = installedChunks s"
        by blast
      with False Cons show ?thesis
        by (intro exI [of _ fs] exI [of _ rest] exI [of _ "d # post'"]) simp
    next
      case True
      define s1 where "s1 = s\<lparr>chunkQueue := splice1 (length pre) (chunkQueue s),
          req_s := entry_of d, fired := fired s @ [d]\<rparr>"
      have q1: "chunkQueue s1 = pre @ post0" "installedChunks s1 = installedChunks s"
        "fired s1 = fired s @ [d]"
        using Suc.prems(1) Cons by (simp_all add: s1_def splice1_def)
      from Suc.prems(2) True j d
      have c: "(case require n s1 (key_of (entry_of d)) of
                 None \<Rightarrow> None
               | Some (Inl e, s2) \<Rightarrow> Some (Inl e, s2)
               | Some (Inr v, s2) \<Rightarrow> scan n (length pre) v s2) = Some (out, s')"
        by (simp add: Let_def s1_def)
      then obtain o2 s2 where r: "require n s1 (key_of (entry_of d)) = Some (o2, s2)"
        by (cases "require n s1 (key_of (entry_of d))") auto
      from require_frame [OF r] q1
      have q2: "chunkQueue s2 = pre @ post0" "installedChunks s2 = installedChunks s"
        "fired s2 = fired s @ [d]"
        by (simp_all add: frame_def)
      have f2: "fulfilled s2 = fulfilled s" using q2(2) by (simp add: fulfilled_def fun_eq_iff)
      show ?thesis
      proof (cases o2)
        case (Inl e)
        with c r have "out = Inl e" "s' = s2" by simp_all
        with q2 True Cons show ?thesis
          by (intro exI [of _ "[d]"] exI [of _ "filter (fulfilled s) post0"] exI [of _ post0])
             simp
      next
        case (Inr v)
        with c r have sc: "scan n (length pre) v s2 = Some (out, s')" by simp
        from Suc.IH [OF q2(1) sc] f2 q2 obtain fs rest post'
          where "chunkQueue s' = pre @ post'" "filter (fulfilled s) post0 = fs @ rest"
            "fired s' = fired s @ d # fs"
            "filter (\<lambda>d. \<not> fulfilled s d) post' = filter (\<lambda>d. \<not> fulfilled s d) post0"
            "filter (fulfilled s) post' = rest" "\<not> isl out \<longrightarrow> rest = []"
            "installedChunks s' = installedChunks s"
          by auto
        with True Cons show ?thesis
          by (intro exI [of _ "d # fs"] exI [of _ rest] exI [of _ post']) simp
      qed
    qed
  qed
qed

lemma scan_stuck: "scan n j r st_stuck = None \<or> scan n j r st_stuck = Some (Inr r, st_stuck)"
proof (induction n arbitrary: j)
  case 0
  then show ?case by simp
next
  case (Suc n)
  have q: "chunkQueue st_stuck = [[''m'', ''5'']]" "installedChunks st_stuck ''5'' = None"
    by (simp_all add: st_stuck_def init_def)
  show ?case
  proof (cases "j = 0")
    case True
    have "\<not> fulfilled st_stuck [''m'', ''5'']" by (simp add: fulfilled_def q)
    with True q have "scan (Suc n) j r st_stuck = scan n (Suc 0) r st_stuck" by simp
    with Suc show ?thesis by simp
  next
    case False
    with q show ?thesis by simp
  qed
qed

lemma while_stuck: "while_chunkQueue n st_stuck = None"
proof (induction n)
  case 0
  then show ?case by simp
next
  case (Suc n)
  have q: "length (chunkQueue st_stuck) \<noteq> 0" by (simp add: st_stuck_def)
  from scan_stuck [of n 0 Undefined] Suc q show ?case
    by (auto simp add: checkDeferredModules_def)
qed


lemma fulfilled_iff:
  "fulfilled s d = list_all (\<lambda>depId. installedChunks s depId = Some Zero) (drop 1 d)"
proof -
  have "foldl (\<lambda>f depId. if installedChunks s depId \<noteq> Some Zero then False else f) b xs
      = (b \<and> list_all (\<lambda>depId. installedChunks s depId = Some Zero) xs)" for b xs
    by (induction xs arbitrary: b) auto
  then show ?thesis by (simp add: fulfilled_def)
qed

lemma check_unfulfilled:
  assumes "checkDeferredModules n s = Some (out, s')"
  shows "filter (\<lambda>d. \<not> fulfilled s d) (chunkQueue s') = filter (\<lambda>d. \<not> fulfilled s d) (chunkQueue s)
     \<and> installedChunks s' = installedChunks s"
proof -
  from assms have sc: "scan n (length ([] :: string list list)) Undefined s = Some (out, s')"
    by (simp add: checkDeferredModules_def)
  have q: "chunkQueue s = [] @ chunkQueue s" by simp
  from scan_split [OF q sc] show ?thesis by auto
qed

lemma while_unfulfilled:
  "while_chunkQueue n s = Some (out, s') \<Longrightarrow>
   filter (\<lambda>d. \<not> fulfilled s d) (chunkQueue s') = filter (\<lambda>d. \<not> fulfilled s d) (chunkQueue s)
   \<and> installedChunks s' = installedChunks s"
proof (induction n arbitrary: s)
  case 0
  then show ?case by simp
next
  case (Suc n)
  show ?case
  proof (cases "chunkQueue s = []")
    case True
    with Suc.prems show ?thesis by simp
  next
    case False
    with Suc.prems obtain o1 s1 where c: "checkDeferredModules n s = Some (o1, s1)"
      by (cases "checkDeferredModules n s") auto
    note u = check_unfulfilled [OF c]
    show ?thesis
    proof (cases o1)
      case (Inl e)
      with Suc.prems False c have "s' = s1" by simp
      with u show ?thesis by simp
    next
      case (Inr v)
      with Suc.prems False c have w: "while_chunkQueue n s1 = Some (out, s')" by simp
      have f: "fulfilled s1 = fulfilled s" using u by (simp add: fulfilled_def fun_eq_iff)
      from Suc.IH [OF w] u f show ?thesis by simp
    qed
  qed
qed

text \<open>
  A delivery does not touch the queue before its loop. It ends at once when the merge
  raises; otherwise, with an empty queue, its result is the result of
  \<open>__webpack_require__(executeModules)\<close> in the state that the merge has prepared.
\<close>

lemma foldl_mark_chunk_queue: "chunkQueue (foldl mark_chunk s ids) = chunkQueue s"
  by (induction ids arbitrary: s)
     (simp_all add: mark_chunk_def settle_def Let_def split: option.splits slot.splits)

lemma foldl_add_module_queue: "chunkQueue (foldl add_module s ms) = chunkQueue s"
  by (induction ms arbitrary: s) (simp_all add: add_module_def)

lemma merge_modules_foldl:
  "merge_modules s ms =
     (if ''length'' \<in> fst ` set ms then Inl RangeError else Inr (),
      foldl add_module s (takeWhile (\<lambda>kv. fst kv \<noteq> ''length'') ms))"
  by (induction ms arbitrary: s) simp_all

lemma delivered_eq:
  "delivered s (ids, ms, ex) =
     (let s2 = foldl add_module (foldl mark_chunk s ids)
                 (takeWhile (\<lambda>kv. fst kv \<noteq> ''length'') ms)
      in if ''length'' \<in> fst ` set ms then (Inl RangeError, s2)
         else (Inr (), s2\<lparr>jsonpArray := jsonpArray s2 @ [(ids, ms, ex)]\<rparr>))"
  by (simp add: delivered_def merge_modules_foldl Let_def)

lemma jsonp_push_delivered:
  "jsonp_push n s cd =
     (case delivered s cd of
        (Inl e, t) \<Rightarrow> Some (Inl e, t)
      | (Inr u, t) \<Rightarrow>
          (case while_chunkQueue n t of
             None \<Rightarrow> None
           | Some (Inl e, s4) \<Rightarrow> Some (Inl e, s4)
           | Some (Inr u, s4) \<Rightarrow> require n s4 (key_of (snd (snd cd)))))"
proof -
  obtain ids ms ex where cd: "cd = (ids, ms, ex)" by (cases cd)
  show ?thesis unfolding cd
    by (simp add: jsonp_push_def delivered_def Let_def
        split: option.splits prod.splits sum.splits)
qed

lemma chunkQueue_delivered: "chunkQueue (snd (delivered s cd)) = chunkQueue s"
proof -
  obtain ids ms ex where cd: "cd = (ids, ms, ex)" by (cases cd)
  show ?thesis
    unfolding cd by (simp add: delivered_eq Let_def foldl_add_module_queue foldl_mark_chunk_queue)
qed


lemma jsonp_push_entry:
  assumes "chunkQueue s = []" "delivered s cd = (Inr u, t)"
  shows "jsonp_push (Suc n) s cd = require (Suc n) t (key_of (snd (snd cd)))"
proof -
  from assms have "chunkQueue t = []" using chunkQueue_delivered [of s cd] by simp
  then have "while_chunkQueue (Suc n) t = Some (Inr (), t)" by simp
  with assms(2) show ?thesis
    by (subst jsonp_push_delivered) (simp del: while_chunkQueue.simps require.simps)
qed

lemma jsonp_push_queue:
  assumes "chunkQueue s = []" "jsonp_push n s cd = Some (out, t)"
  shows "chunkQueue t = []"
proof (cases "delivered s cd")
  case (Pair r s3)
  have q: "chunkQueue s3 = []" using assms(1) chunkQueue_delivered [of s cd] Pair by simp
  show ?thesis
  proof (cases r)
    case (Inl e)
    with Pair assms(2) have "t = s3" by (simp add: jsonp_push_delivered)
    with q show ?thesis by simp
  next
    case (Inr u)
    have "require n s3 (key_of (snd (snd cd))) = Some (out, t)"
    proof (cases n)
      case 0
      with assms(2) Pair Inr show ?thesis by (simp add: jsonp_push_delivered)
    next
      case (Suc k)
      with q have "while_chunkQueue n s3 = Some (Inr (), s3)" by simp
      with assms(2) Pair Inr show ?thesis by (simp add: jsonp_push_delivered)
    qed
    then have "frame s3 t" using require_frame by blast
    with q show ?thesis by (simp add: frame_def)
  qed
qed

lemma scan_mono_Suc: "scan n j r s = Some res \<Longrightarrow> scan (Suc n) j r s = Some res"
proof (induction n arbitrary: j r s)
  case 0
  then show ?case by simp
next
  case (Suc n)
  show ?case
  proof (cases "j < length (chunkQueue s)")
    case False
    with Suc.prems show ?thesis by simp
  next
    case True
    note j = this
    define d where "d = chunkQueue s ! j"
    show ?thesis
    proof (cases "fulfilled s d")
      case False
      with Suc.prems j have "scan n (Suc j) r s = Some res" by (simp add: d_def Let_def)
      then have "scan (Suc n) (Suc j) r s = Some res" by (rule Suc.IH)
      moreover have "scan (Suc (Suc n)) j r s = scan (Suc n) (Suc j) r s"
        using False j by (subst scan.simps(2)) (simp add: d_def Let_def del: scan.simps)
      ultimately show ?thesis by (simp only:)
    next
      case True
      define s1 where "s1 = s\<lparr>chunkQueue := splice1 j (chunkQueue s),
          req_s := entry_of d, fired := fired s @ [d]\<rparr>"
      from Suc.prems True j
      have c: "(case require n s1 (key_of (entry_of d)) of
                 None \<Rightarrow> None
               | Some (Inl e, s2) \<Rightarrow> Some (Inl e, s2)
               | Some (Inr v, s2) \<Rightarrow> scan n j v s2) = Some res"
        by (simp add: Let_def s1_def d_def)
      then obtain o2 s2 where r: "require n s1 (key_of (entry_of d)) = Some (o2, s2)"
        by (cases "require n s1 (key_of (entry_of d))") auto
      then have r': "require (Suc n) s1 (key_of (entry_of d)) = Some (o2, s2)"
        by (rule require_mono_Suc)
      have g: "scan (Suc (Suc n)) j r s =
          (case require (Suc n) s1 (key_of (entry_of d)) of
                 None \<Rightarrow> None
               | Some (Inl e, s2) \<Rightarrow> Some (Inl e, s2)
               | Some (Inr v, s2) \<Rightarrow> scan (Suc n) j v s2)"
        using True j
        by (subst scan.simps(2)) (simp add: Let_def s1_def d_def del: require.simps scan.simps)
      show ?thesis
      proof (cases o2)
        case (Inl e)
        with c r have "res = (Inl e, s2)" by simp
        then show ?thesis
          by (simp only: g r' Inl option.case prod.case sum.case)
      next
        case (Inr v)
        with c r have "scan n j v s2 = Some res" by simp
        then have "scan (Suc n) j v s2 = Some res" by (rule Suc.IH)
        then show ?thesis
          by (simp only: g r' Inr option.case prod.case sum.case)
      qed
    qed
  qed
qed

lemma scan_mono: "scan n j r s = Some res \<Longrightarrow> n \<le> m \<Longrightarrow> scan m j r s = Some res"
proof (induction m)
  case 0
  then show ?case by simp
next
  case (Suc m)
  show ?case
  proof (cases "n = Suc m")
    case True
    with Suc.prems show ?thesis by simp
  next
    case False
    with Suc.prems have "n \<le> m" by simp
    with Suc have "scan m j r s = Some res" by blast
    then show ?thesis by (rule scan_mono_Suc)
  qed
qed

lemma scan_terminates_bounded:
  "finite (dom (modules s)) \<Longrightarrow> length (chunkQueue s) - j \<le> k \<Longrightarrow>
   \<exists>n res. scan n j r s = Some res"
proof (induction k arbitrary: s j r)
  case 0
  then have "scan (Suc 0) j r s = Some (Inr r, s)" by simp
  then show ?case by blast
next
  case (Suc k)
  show ?case
  proof (cases "j < length (chunkQueue s)")
    case False
    then have "scan (Suc 0) j r s = Some (Inr r, s)" by simp
    then show ?thesis by blast
  next
    case True
    note j = this
    define d where "d = chunkQueue s ! j"
    show ?thesis
    proof (cases "fulfilled s d")
      case False
      from Suc.prems j have "length (chunkQueue s) - Suc j \<le> k" by simp
      from Suc.IH [OF Suc.prems(1) this] obtain n res where "scan n (Suc j) r s = Some res"
        by blast
      with False j have "scan (Suc n) j r s = Some res" by (simp add: d_def Let_def)
      then show ?thesis by blast
    next
      case True
      define s1 where "s1 = s\<lparr>chunkQueue := splice1 j (chunkQueue s),
          req_s := entry_of d, fired := fired s @ [d]\<rparr>"
      have g: "scan (Suc n) j r s =
          (case require n s1 (key_of (entry_of d)) of
                 None \<Rightarrow> None
               | Some (Inl e, s2) \<Rightarrow> Some (Inl e, s2)
               | Some (Inr v, s2) \<Rightarrow> scan n j v s2)" for n
        using True j by (simp add: Let_def s1_def d_def)
      have f1: "finite (dom (modules s1))" using Suc.prems(1) by (simp add: s1_def)
      have l1: "length (chunkQueue s1) - j \<le> k"
        using Suc.prems(2) j by (simp add: s1_def splice1_def)
      from require_terminates [OF f1] obtain n1 o2 s2
        where r: "require n1 s1 (key_of (entry_of d)) = Some (o2, s2)" by fastforce
      show ?thesis
      proof (cases o2)
        case (Inl e)
        with r g [of n1] have "scan (Suc n1) j r s = Some (Inl e, s2)" by simp
        then show ?thesis by blast
      next
        case (Inr v)
        from require_frame [OF r] f1 l1
        have "finite (dom (modules s2))" "length (chunkQueue s2) - j \<le> k"
          by (simp_all add: frame_def)
        from Suc.IH [OF this] obtain n2 res where s: "scan n2 j v s2 = Some res" by blast
        have "require (max n1 n2) s1 (key_of (entry_of d)) = Some (Inr v, s2)"
          using r Inr by (auto intro: require_mono)
        moreover have "scan (max n1 n2) j v s2 = Some res" using s by (auto intro: scan_mono)
        ultimately have "scan (Suc (max n1 n2)) j r s = Some res" using g by simp
        then show ?thesis by blast
      qed
    qed
  qed
qed

lemma checkDeferredModules_terminates:
  "finite (dom (modules s)) \<Longrightarrow> \<exists>n res. checkDeferredModules n s = Some res"
  unfolding checkDeferredModules_def
  using scan_terminates_bounded [of s 0 "length (chunkQueue s)" Undefined] by simp


lemma checkDeferredModules_result:
  assumes "checkDeferredModules n s = Some (out, s')"
  shows "\<exists>fs rest. filter (fulfilled s) (chunkQueue s) = fs @ rest
     \<and> fired s' = fired s @ fs
     \<and> filter (\<lambda>d. \<not> fulfilled s d) (chunkQueue s') = filter (\<lambda>d. \<not> fulfilled s d) (chunkQueue s)
     \<and> filter (fulfilled s) (chunkQueue s') = rest
     \<and> (\<not> isl out \<longrightarrow> rest = []
          \<and> chunkQueue s' = filter (\<lambda>d. \<not> fulfilled s d) (chunkQueue s))
     \<and> installedChunks s' = installedChunks s"
proof -
  from assms have sc: "scan n (length ([] :: string list list)) Undefined s = Some (out, s')"
    by (simp add: checkDeferredModules_def)
  have q: "chunkQueue s = [] @ chunkQueue s" by simp
  from scan_split [OF q sc] obtain fs rest post'
    where p: "chunkQueue s' = post'" "filter (fulfilled s) (chunkQueue s) = fs @ rest"
      "fired s' = fired s @ fs"
      "filter (\<lambda>d. \<not> fulfilled s d) post' = filter (\<lambda>d. \<not> fulfilled s d) (chunkQueue s)"
      "filter (fulfilled s) post' = rest" "\<not> isl out \<longrightarrow> rest = []"
      "installedChunks s' = installedChunks s"
    by auto
  have e: "chunkQueue s' = filter (\<lambda>d. \<not> fulfilled s d) (chunkQueue s)" if "\<not> isl out"
  proof -
    from that p have "filter (fulfilled s) (chunkQueue s') = []" by simp
    then have "filter (\<lambda>d. \<not> fulfilled s d) (chunkQueue s') = chunkQueue s'"
      by (simp add: filter_empty_conv filter_id_conv)
    with p(1,4) show ?thesis by simp
  qed
  show ?thesis
    apply (rule exI [of _ fs])
    apply (rule exI [of _ rest])
    using p e apply blast
    done
qed

text \<open>
  C7. An entry is fulfilled when every chunk it requires holds \<open>0\<close> in
  \<open>installedChunks\<close>. One scan of \<open>checkDeferredModules\<close> ends, given enough fuel,
  whenever the table of factories is finite. However it ends: the entries it hands to
  \<open>__webpack_require__\<close> are the first entries of the queue that are fulfilled, each once
  and in queue order (\<open>fs\<close>); no entry with a required chunk that is not complete is
  handed over, and all such entries stay queued in their order; the scan does not change
  \<open>installedChunks\<close>. If the scan returns, every fulfilled entry was handed over once and
  removed, so the queue is left with exactly the entries that are not fulfilled.
\<close>

theorem deferred_entries_wait_for_their_chunks:
  "fulfilled s d = list_all (\<lambda>depId. installedChunks s depId = Some Zero) (drop 1 d)
   \<and> (finite (dom (modules s)) \<longrightarrow> (\<exists>n res. checkDeferredModules n s = Some res))
   \<and> (checkDeferredModules n s = Some (out, s') \<longrightarrow>
        (\<exists>fs rest. filter (fulfilled s) (chunkQueue s) = fs @ rest
          \<and> fired s' = fired s @ fs
          \<and> filter (\<lambda>d. \<not> fulfilled s d) (chunkQueue s')
              = filter (\<lambda>d. \<not> fulfilled s d) (chunkQueue s)
          \<and> filter (fulfilled s) (chunkQueue s') = rest
          \<and> (\<not> isl out \<longrightarrow> rest = []
               \<and> chunkQueue s' = filter (\<lambda>d. \<not> fulfilled s d) (chunkQueue s))
          \<and> installedChunks s' = installedChunks s))"
  using fulfilled_iff [of s d] checkDeferredModules_terminates [of s]
    checkDeferredModules_result [of n s out s']
  by blast

theorem deferred_entries_wait_for_their_chunks_witness:
  "finite (dom (modules st_mixed))
   \<and> checkDeferredModules 3 st_mixed = Some (Inr (Ref 0), st_mixed_done)
   \<and> \<not> fulfilled st_mixed [''e'', ''A'', ''B''] \<and> fulfilled st_mixed [''m'', ''A'']
   \<and> chunkQueue st_mixed_done = [[''e'', ''A'', ''B'']]
   \<and> fired st_mixed_done = [[''m'', ''A'']]"
proof -
  have f: "\<not> fulfilled st_mixed [''e'', ''A'', ''B'']" "fulfilled st_mixed [''m'', ''A'']"
    by (simp_all add: fulfilled_def st_mixed_def)
  have q: "chunkQueue st_mixed = [[''e'', ''A'', ''B''], [''m'', ''A'']]"
    "modules st_mixed = [''m'' \<mapsto> [SetExport ''v'' (Num 1)]]"
    "installedModules st_mixed = Map.empty" "heap st_mixed = []" "calls st_mixed = []"
    "fired st_mixed = []" "object_prototype st_mixed = es_object_prototype"
    "array_prototype st_mixed = es_array_prototype"
    by (simp_all add: st_mixed_def init_def)
  have h: "checkDeferredModules 3 st_mixed = Some (Inr (Ref 0), st_mixed_done)"
    by (simp add: checkDeferredModules_def numeral_3_eq_3 f q splice1_def entry_of_def
        key_of_def install_def set_prop_def upd_module_def module_exports_def st_mixed_done_def
        callee_apply es_plain)
  have fin: "finite (dom (modules st_mixed))" by (simp add: q)
  from deferred_entries_wait_for_their_chunks [where s = st_mixed and n = 3
      and out = "Inr (Ref 0)" and s' = st_mixed_done] h f fin
  show ?thesis by (simp add: st_mixed_done_def)
qed

subsection \<open>The delivery with an entry module, and the start\<close>

text \<open>
  What the two loops of a delivery do: every chunk id of the batch holds \<open>0\<close> in
  \<open>installedChunks\<close> afterwards, and the factories of the batch overwrite those registered
  under the same id; the key \<open>__proto__\<close> is the exception in both.
\<close>

lemma object_prototype_mark_chunk:
  "object_prototype (foldl mark_chunk s ids) = object_prototype s"
  by (induction ids arbitrary: s)
     (simp_all add: mark_chunk_def settle_def Let_def split: option.splits slot.splits)

lemma object_prototype_add_module:
  "object_prototype (foldl add_module s ms) = object_prototype s"
  by (induction ms arbitrary: s) (simp_all add: add_module_def)

lemma installedChunks_mark_chunk:
  "installedChunks (foldl mark_chunk s ids) c
     = (if c \<in> set ids \<and> \<not> (c = ''__proto__'' \<and> ''__proto__'' \<in> set (object_prototype s))
        then Some Zero else installedChunks s c)"
proof (induction ids arbitrary: s)
  case Nil
  then show ?case by simp
next
  case (Cons x xs)
  have "installedChunks (mark_chunk s x) =
      (if x = ''__proto__'' \<and> ''__proto__'' \<in> set (object_prototype s) then installedChunks s
       else (installedChunks s)(x \<mapsto> Zero))"
    "object_prototype (mark_chunk s x) = object_prototype s"
    by (simp_all add: mark_chunk_def settle_def Let_def split: option.splits slot.splits)
  with Cons [of "mark_chunk s x"] show ?case by auto
qed

lemma modules_add_module:
  "modules (foldl add_module s ms) = modules s ++ map_of (rev
     (filter (\<lambda>kv. \<not> (fst kv = ''__proto__'' \<and> ''__proto__'' \<in> set (object_prototype s))) ms))"
proof (induction ms arbitrary: s)
  case Nil
  then show ?case by simp
next
  case (Cons kv ms)
  let ?skip = "fst kv = ''__proto__'' \<and> ''__proto__'' \<in> set (object_prototype s)"
  have o: "object_prototype (add_module s kv) = object_prototype s"
    by (simp add: add_module_def)
  show ?case
  proof (cases ?skip)
    case True
    then have "modules (add_module s kv) = modules s" by (simp add: add_module_def)
    with Cons [of "add_module s kv"] o True show ?thesis by simp
  next
    case False
    then have "modules (add_module s kv) = (modules s)(fst kv \<mapsto> snd kv)"
      by (auto simp add: add_module_def)
    with Cons [of "add_module s kv"] o False show ?thesis
      by (cases kv) (auto simp add: fun_eq_iff map_add_def split: option.splits)
  qed
qed

lemma boot: "checkDeferredModules (Suc n) init = Some (Inr Undefined, init)"
  by (simp add: checkDeferredModules_def init_def)

subsection \<open>What holds in every reachable state\<close>

text \<open>
  In every reachable state the queue is empty, the table of factories is finite, no slot of
  \<open>installedChunks\<close> holds the array of a promise, no promise is fulfilled and no factory
  was invoked twice. Hence a delivery settles no promise and leaves \<open>chunkStatus\<close> alone,
  and it ends, given enough fuel.
\<close>

lemma once_upd_module: "once s \<Longrightarrow> once (upd_module y f s)"
  by (auto simp add: once_def upd_module_def split: option.splits)

lemma once_set_prop: "once s \<Longrightarrow> once (set_prop a k v s)"
  by (simp add: once_def set_prop_def)

lemma once_install: "once s \<Longrightarrow> once (install y s)"
  by (auto simp add: once_def install_def)

lemma once_start:
  "once s \<Longrightarrow> installedModules s y = None \<Longrightarrow> once ((install y s)\<lparr>calls := calls s @ [y]\<rparr>)"
  by (auto simp add: once_def install_def)

lemma require_once: "require n s y = Some (res, s') \<Longrightarrow> once s \<Longrightarrow> once s'"
proof (induction n arbitrary: s y res s')
  case 0
  then show ?case by simp
next
  case (Suc n)
  have body: "once t \<longrightarrow> once t'" if "run (require n) y a t f = Some (out, t')" for a t f out t'
    using that
    by (rule run_rel [where R = "\<lambda>s s'. once s \<longrightarrow> once s'", rotated -1])
       (auto intro: once_set_prop once_upd_module Suc.IH)
  from Suc.prems(1) show ?case
  proof (cases rule: require_cases)
    case (cached m)
    with Suc.prems(2) show ?thesis by simp
  next
    case inherited
    with Suc.prems(2) show ?thesis by simp
  next
    case missing
    with Suc.prems(2) show ?thesis by (simp add: once_install)
  next
    case (threw f e)
    with Suc.prems(2) body once_start show ?thesis by blast
  next
    case (returned f u s2)
    with Suc.prems(2) body once_start have "once s2" by blast
    with returned(4) show ?thesis by (simp add: once_upd_module)
  qed
qed

lemma sound_init: "sound init"
  by (auto simp add: sound_def once_def init_def)

lemma sound_loadChunk: "sound s \<Longrightarrow> sound (snd (loadChunk s chunkId))"
  by (auto simp add: sound_def once_def loadChunk_def Let_def split: option.splits slot.splits)

lemma sound_script_onevent: "sound s \<Longrightarrow> sound (script_onevent k ev s)"
  by (auto simp add: sound_def once_def script_onevent_def clearTimeout_def set_error_def
      settle_def Let_def list_all_length nth_list_update split: option.splits slot.splits)

lemma sound_timer_fires: "sound s \<Longrightarrow> sound (timer_fires k s)"
  by (simp add: timer_fires_def sound_script_onevent)

lemma sound_require: "sound s \<Longrightarrow> require n s y = Some (out, s') \<Longrightarrow> sound s'"
  using require_frame [of n s y out s'] require_once [of n s y out s']
  by (simp add: sound_def frame_def)

lemma sound_mark_chunk: "sound s \<Longrightarrow> sound (foldl mark_chunk s ids)"
proof (induction ids arbitrary: s)
  case Nil
  then show ?case by simp
next
  case (Cons c ids)
  from Cons.prems have "installedChunks s c \<noteq> Some (Waiter p)" for p
    by (auto simp add: sound_def)
  then have m: "mark_chunk s c = s
      \<or> mark_chunk s c = s\<lparr>installedChunks := (installedChunks s)(c \<mapsto> Zero)\<rparr>"
    by (cases "installedChunks s c"; cases "the (installedChunks s c)")
       (auto simp add: mark_chunk_def Let_def)
  have "sound (mark_chunk s c)"
  proof (cases "mark_chunk s c = s")
    case True
    with Cons.prems show ?thesis by simp
  next
    case False
    with m have e: "mark_chunk s c = s\<lparr>installedChunks := (installedChunks s)(c \<mapsto> Zero)\<rparr>"
      by simp
    show ?thesis using Cons.prems unfolding e by (auto simp add: sound_def once_def)
  qed
  then show ?case using Cons.IH by simp
qed

lemma sound_add_module: "sound s \<Longrightarrow> sound (foldl add_module s ms)"
proof (induction ms arbitrary: s)
  case Nil
  then show ?case by simp
next
  case (Cons kv ms)
  have "sound (add_module s kv)"
    using Cons.prems by (auto simp add: sound_def once_def add_module_def)
  then show ?case using Cons.IH by simp
qed

lemma sound_delivered: "sound s \<Longrightarrow> sound (snd (delivered s cd))"
proof -
  assume s: "sound s"
  obtain ids ms ex where cd: "cd = (ids, ms, ex)" by (cases cd)
  have "sound (foldl add_module (foldl mark_chunk s ids) xs)" for xs
    using s by (intro sound_add_module sound_mark_chunk)
  then show ?thesis
    unfolding cd by (simp add: delivered_eq Let_def) (simp add: sound_def once_def)
qed

lemma sound_jsonp_push:
  assumes "sound s" "jsonp_push n s cd = Some (out, s')"
  shows "sound s'"
proof (cases "delivered s cd")
  case (Pair r s3)
  have s3: "sound s3" using sound_delivered [OF assms(1), of cd] Pair by simp
  from assms(1) have q: "chunkQueue s = []" by (simp add: sound_def)
  show ?thesis
  proof (cases r)
    case (Inl e)
    with Pair assms(2) have "s' = s3" by (simp add: jsonp_push_delivered)
    with s3 show ?thesis by simp
  next
    case (Inr u)
    have "n \<noteq> 0"
    proof
      assume "n = 0"
      with assms(2) Pair Inr show False by (simp add: jsonp_push_delivered)
    qed
    then obtain k where k: "n = Suc k" by (cases n) auto
    from Pair Inr have d: "delivered s cd = (Inr u, s3)" by simp
    from assms(2) have "require n s3 (key_of (snd (snd cd))) = Some (out, s')"
      unfolding k jsonp_push_entry [OF q d] .
    with s3 show ?thesis by (rule sound_require)
  qed
qed

lemma reachable_sound: "reachable s \<Longrightarrow> sound s"
  by (induction rule: reachable.induct)
     (auto intro: sound_init sound_loadChunk sound_script_onevent sound_timer_fires
        sound_jsonp_push sound_require)

lemma mark_chunk_sound_frame:
  "sound s \<Longrightarrow> promises (foldl mark_chunk s ids) = promises s
     \<and> chunkStatus (foldl mark_chunk s ids) = chunkStatus s
     \<and> scripts (foldl mark_chunk s ids) = scripts s"
proof (induction ids arbitrary: s)
  case Nil
  then show ?case by simp
next
  case (Cons c ids)
  from Cons.prems have "installedChunks s c \<noteq> Some (Waiter p)" for p
    by (auto simp add: sound_def)
  then have m: "mark_chunk s c = s
      \<or> mark_chunk s c = s\<lparr>installedChunks := (installedChunks s)(c \<mapsto> Zero)\<rparr>"
    by (cases "installedChunks s c"; cases "the (installedChunks s c)")
       (auto simp add: mark_chunk_def Let_def)
  have "sound (mark_chunk s c)" using sound_mark_chunk [OF Cons.prems, of "[c]"] by simp
  from Cons.IH [OF this] m show ?case by auto
qed

lemma add_module_frame:
  "promises (foldl add_module s ms) = promises s
     \<and> chunkStatus (foldl add_module s ms) = chunkStatus s
     \<and> scripts (foldl add_module s ms) = scripts s"
  by (induction ms arbitrary: s) (simp_all add: add_module_def)

lemma delivered_sound_frame:
  assumes "sound s"
  shows "promises (snd (delivered s cd)) = promises s
     \<and> chunkStatus (snd (delivered s cd)) = chunkStatus s
     \<and> scripts (snd (delivered s cd)) = scripts s"
proof -
  obtain ids ms ex where cd: "cd = (ids, ms, ex)" by (cases cd)
  show ?thesis
    unfolding cd using mark_chunk_sound_frame [OF assms, of ids]
    by (simp add: delivered_eq Let_def add_module_frame)
qed

lemma delivery_settles_nothing:
  assumes "reachable s" "jsonp_push n s cd = Some (out, s')"
  shows "promises s' = promises s \<and> chunkStatus s' = chunkStatus s \<and> scripts s' = scripts s"
proof (cases "delivered s cd")
  case (Pair r s3)
  from assms(1) have snd: "sound s" by (rule reachable_sound)
  then have q: "chunkQueue s = []" by (simp add: sound_def)
  have p3: "promises s3 = promises s \<and> chunkStatus s3 = chunkStatus s \<and> scripts s3 = scripts s"
    using delivered_sound_frame [OF snd, of cd] Pair by simp
  show ?thesis
  proof (cases r)
    case (Inl e)
    with Pair assms(2) have "s' = s3" by (simp add: jsonp_push_delivered)
    with p3 show ?thesis by simp
  next
    case (Inr u)
    have "n \<noteq> 0"
    proof
      assume "n = 0"
      with assms(2) Pair Inr show False by (simp add: jsonp_push_delivered)
    qed
    then obtain k where k: "n = Suc k" by (cases n) auto
    from Pair Inr have d: "delivered s cd = (Inr u, s3)" by simp
    from assms(2) have "require n s3 (key_of (snd (snd cd))) = Some (out, s')"
      unfolding k jsonp_push_entry [OF q d] .
    from require_frame [OF this] p3 show ?thesis by (simp add: frame_def)
  qed
qed

lemma no_promise_fulfilled:
  assumes "reachable s"
  shows "future_state s (PromiseAll [Prom p]) \<noteq> Fulfilled"
proof -
  from assms have "list_all (\<lambda>c. c \<noteq> Fulfilled) (promises s)"
    using reachable_sound by (simp add: sound_def)
  then have "elem_state s (Prom p) \<noteq> Fulfilled"
    by (simp add: elem_state_def list_all_length)
  then show ?thesis by (cases "elem_state s (Prom p)") simp_all
qed


subsection \<open>The loop of the delivery\<close>



text \<open>
  The test of the loop is the length of the queue, not the outcome of the scan. At a queue
  with an entry whose required chunk is not complete a scan removes nothing and the loop
  does not return; the program never builds such a queue.
\<close>

lemma loop_tests_the_queue:
  "chunkQueue st_stuck = [[''m'', ''5'']]
   \<and> checkDeferredModules 2 st_stuck = Some (Inr Undefined, st_stuck)
   \<and> (\<forall>n. while_chunkQueue n st_stuck = None)
   \<and> \<not> reachable st_stuck"
proof -
  have q: "chunkQueue st_stuck = [[''m'', ''5'']]" "installedChunks st_stuck ''5'' = None"
    by (simp_all add: st_stuck_def init_def)
  have "\<not> fulfilled st_stuck [''m'', ''5'']" by (simp add: fulfilled_def q)
  with q have "checkDeferredModules 2 st_stuck = Some (Inr Undefined, st_stuck)"
    by (simp add: checkDeferredModules_def numeral_2_eq_2)
  moreover have "\<not> reachable st_stuck"
    using reachable_sound [of st_stuck] q by (auto simp add: sound_def)
  ultimately show ?thesis using q by (simp add: while_stuck)
qed



end
